theory Spec2Isabelle
  imports Complex_Main
begin

section \<open>Requests, errors and the framework's dispatch\<close>

text \<open>
  The views of \<^verbatim>\<open>api/views.py\<close> are classes of the Django REST framework. What a
  class inherits from the framework (the actions of a mixin, the verbs a router binds, the
  order in which a request is checked and handled) is written out here as plain functions,
  and each view class of the file is a value built from them.
\<close>

datatype http_method = GET | POST | PUT | PATCH | DELETE | HEAD | OPTIONS | TRACE

text \<open>\<^verbatim>\<open>request.method.lower()\<close>.\<close>

fun method_lower :: "http_method \<Rightarrow> string" where
  "method_lower GET = ''get''"
| "method_lower POST = ''post''"
| "method_lower PUT = ''put''"
| "method_lower PATCH = ''patch''"
| "method_lower DELETE = ''delete''"
| "method_lower HEAD = ''head''"
| "method_lower OPTIONS = ''options''"
| "method_lower TRACE = ''trace''"

text \<open>
  Every exception a request of this file can end in. \<open>PermissionDenied\<close> stands for both
  answers of the framework's \<^verbatim>\<open>permission_denied\<close> (not authenticated, forbidden).
\<close>

datatype error =
    ValidationError
  | PermissionDenied
  | Http404
  | MethodNotAllowed
  | DoesNotExist
  | MultipleObjectsReturned
  | KeyError
  | IntegrityError

datatype mixin =
    CreateModelMixin
  | ListModelMixin
  | RetrieveModelMixin
  | UpdateModelMixin
  | DestroyModelMixin

datatype action =
    act_list
  | act_create
  | act_retrieve
  | act_update
  | act_partial_update
  | act_destroy
  | act_options

text \<open>The methods each mixin of \<^verbatim>\<open>rest_framework.mixins\<close> gives a view class.\<close>

fun mixin_actions :: "mixin \<Rightarrow> action list" where
  "mixin_actions CreateModelMixin = [act_create]"
| "mixin_actions ListModelMixin = [act_list]"
| "mixin_actions RetrieveModelMixin = [act_retrieve]"
| "mixin_actions UpdateModelMixin = [act_update, act_partial_update]"
| "mixin_actions DestroyModelMixin = [act_destroy]"

datatype permission_class =
    AllowAny
  | AdminLevelPermission
  | UserAccessPermission
  | AdminLevelOrReadOnlyPermission
  | IsOwnerAdminModeratorOrReadOnly

record viewset =
  mixins :: "mixin list"
  permission_classes :: "permission_class list"
  http_method_names :: "string list"
  lookup_field :: string

text \<open>Django's \<^verbatim>\<open>View.http_method_names\<close>, which a class keeps unless it sets its own.\<close>

definition View_http_method_names :: "string list" where
  "View_http_method_names =
     [''get'', ''post'', ''put'', ''patch'', ''delete'', ''head'', ''options'', ''trace'']"

text \<open>The bases of \<^verbatim>\<open>viewsets.ModelViewSet\<close>, in the framework's order.\<close>

definition ModelViewSet :: "mixin list" where
  "ModelViewSet =
     [CreateModelMixin, RetrieveModelMixin, UpdateModelMixin, DestroyModelMixin,
      ListModelMixin]"

definition actions :: "viewset \<Rightarrow> action list" where
  "actions vs = concat (map mixin_actions (mixins vs))"

text \<open>
  The two routes a router makes for a registered viewset, \<^verbatim>\<open>{prefix}/\<close> and
  \<^verbatim>\<open>{prefix}/{lookup}/\<close>, and the action each verb names there.
\<close>

datatype route = list_route | detail_route

fun route_mapping :: "route \<Rightarrow> http_method \<Rightarrow> action option" where
  "route_mapping list_route GET = Some act_list"
| "route_mapping list_route POST = Some act_create"
| "route_mapping detail_route GET = Some act_retrieve"
| "route_mapping detail_route PUT = Some act_update"
| "route_mapping detail_route PATCH = Some act_partial_update"
| "route_mapping detail_route DELETE = Some act_destroy"
| "route_mapping _ _ = None"

text \<open>
  What \<^verbatim>\<open>as_view\<close> binds on the view object: a verb of the route whose action the class
  has, \<^verbatim>\<open>head\<close> to whatever serves \<^verbatim>\<open>get\<close>, and \<^verbatim>\<open>options\<close>, which every API view
  defines.
\<close>

definition routed :: "viewset \<Rightarrow> route \<Rightarrow> http_method \<Rightarrow> action option" where
  "routed vs r m =
     (case route_mapping r m of
        None \<Rightarrow> None
      | Some a \<Rightarrow> if a \<in> set (actions vs) then Some a else None)"

definition bound_handler :: "viewset \<Rightarrow> route \<Rightarrow> http_method \<Rightarrow> action option" where
  "bound_handler vs r m =
     (case m of
        OPTIONS \<Rightarrow> Some act_options
      | HEAD \<Rightarrow> routed vs r GET
      | _ \<Rightarrow> routed vs r m)"

text \<open>
  The handler \<^verbatim>\<open>APIView.dispatch\<close> picks; \<open>None\<close> is \<^verbatim>\<open>http_method_not_allowed\<close>:
  \<^verbatim>\<open>
  if request.method.lower() in self.http_method_names:
      handler = getattr(self, request.method.lower(), self.http_method_not_allowed)
  else:
      handler = self.http_method_not_allowed
  \<close>
\<close>

definition handler :: "viewset \<Rightarrow> route \<Rightarrow> http_method \<Rightarrow> action option" where
  "handler vs r m =
     (if method_lower m \<in> set (http_method_names vs) then bound_handler vs r m else None)"

section \<open>The view classes of api/views.py\<close>

text \<open>
  A view class is kept as what decides the verbs it serves and who may use them: its
  mixins, its permission classes, its \<^verbatim>\<open>http_method_names\<close> and its lookup field. The
  attributes that shape a query or pick a serializer (\<^verbatim>\<open>queryset\<close>,
  \<^verbatim>\<open>serializer_class\<close>, \<^verbatim>\<open>filterset_class\<close>, \<^verbatim>\<open>filter_backends\<close>,
  \<^verbatim>\<open>search_fields\<close>) come in further down, with the handlers that use them.
\<close>

definition UserViewSet :: viewset where
  "UserViewSet =
     \<lparr>mixins = ModelViewSet,
      permission_classes = [AdminLevelPermission],
      http_method_names = View_http_method_names,
      lookup_field = ''username''\<rparr>"

definition GetPersonalInfoViewSet :: viewset where
  "GetPersonalInfoViewSet =
     \<lparr>mixins = [UpdateModelMixin, RetrieveModelMixin],
      permission_classes = [UserAccessPermission],
      http_method_names = View_http_method_names,
      lookup_field = ''pk''\<rparr>"

definition ListCreateDestroyViewSet :: "mixin list" where
  "ListCreateDestroyViewSet = [CreateModelMixin, ListModelMixin, DestroyModelMixin]"

definition TitleViewSet :: viewset where
  "TitleViewSet =
     \<lparr>mixins = ModelViewSet,
      permission_classes = [AdminLevelOrReadOnlyPermission],
      http_method_names = View_http_method_names,
      lookup_field = ''pk''\<rparr>"

definition CategoryViewSet :: viewset where
  "CategoryViewSet =
     \<lparr>mixins = ListCreateDestroyViewSet,
      permission_classes = [AdminLevelOrReadOnlyPermission],
      http_method_names = View_http_method_names,
      lookup_field = ''slug''\<rparr>"

definition GenreViewSet :: viewset where
  "GenreViewSet =
     \<lparr>mixins = ListCreateDestroyViewSet,
      permission_classes = [AdminLevelOrReadOnlyPermission],
      http_method_names = View_http_method_names,
      lookup_field = ''slug''\<rparr>"

definition ReviewViewSet :: viewset where
  "ReviewViewSet =
     \<lparr>mixins = ModelViewSet,
      permission_classes = [IsOwnerAdminModeratorOrReadOnly],
      http_method_names = [''get'', ''post'', ''patch'', ''delete''],
      lookup_field = ''pk''\<rparr>"

definition CommentViewSet :: viewset where
  "CommentViewSet =
     \<lparr>mixins = ModelViewSet,
      permission_classes = [IsOwnerAdminModeratorOrReadOnly],
      http_method_names = [''get'', ''post'', ''patch'', ''delete''],
      lookup_field = ''pk''\<rparr>"

section \<open>The rows the views read and write\<close>

text \<open>
  Modelled from the spec: the \<^verbatim>\<open>User\<close> model and its roles (\<^verbatim>\<open>reviews/models.py\<close> is not
  among the sources). Section 3 gives a user an identity, a role that is one of regular,
  moderator and admin, a unique username and email, and a confirmation code that is
  transient: a record that holds a code is pending.
\<close>

datatype role = Regular | Moderator | Admin

record user =
  user_id :: int
  username :: string
  email :: string
  role :: role
  confirmation_code :: "string option"

text \<open>
  A value of a dictionary the views pass on. A model instance is held by its primary key;
  \<open>VAnonymousUser\<close> is what \<^verbatim>\<open>request.user\<close> is when nobody is logged in.
\<close>

datatype val = VInt int | VStr string | VUser int | VAnonymousUser | VTitle int | VReview int

type_synonym data = "string \<rightharpoonup> val"

text \<open>
  The columns are the ones \<^verbatim>\<open>api/views.py\<close> names: \<^verbatim>\<open>Title.id\<close>; \<^verbatim>\<open>Review.id\<close>,
  \<^verbatim>\<open>Review.title\<close>, \<^verbatim>\<open>Review.author\<close> and \<^verbatim>\<open>Review.rating\<close> (the last through
  \<^verbatim>\<open>Avg('reviews__rating')\<close>); \<^verbatim>\<open>Comment.review\<close> and \<^verbatim>\<open>Comment.author\<close>. What else
  a title holds (the columns the filter looks at) is kept as a dictionary.
\<close>

record title =
  title_id :: int
  title_fields :: data

record review =
  review_id :: int
  review_title :: int
  review_author :: int
  review_rating :: int

record comment =
  comment_id :: int
  comment_review :: int
  comment_author :: int

text \<open>The arguments of \<^verbatim>\<open>send_mail\<close>, kept as the message that leaves.\<close>

record mail =
  subject :: string
  message :: string
  from_email :: string
  recipient_list :: "string list"

record store =
  users :: "user list"
  titles :: "title list"
  reviews :: "review list"
  comments :: "comment list"
  outbox :: "mail list"

subsection \<open>Queries\<close>

text \<open>
  \<^verbatim>\<open>Model.objects.get(**filters)\<close>: the one row that matches, or one of two exceptions.
\<close>

definition objects_get :: "('a \<Rightarrow> bool) \<Rightarrow> 'a list \<Rightarrow> error + 'a" where
  "objects_get P rows =
     (case filter P rows of
        [] \<Rightarrow> Inl DoesNotExist
      | [x] \<Rightarrow> Inr x
      | _ \<Rightarrow> Inl MultipleObjectsReturned)"

text \<open>
  \<^verbatim>\<open>django.shortcuts.get_object_or_404\<close>: \<^verbatim>\<open>get\<close>, with \<^verbatim>\<open>DoesNotExist\<close> turned into
  \<^verbatim>\<open>Http404\<close>. The function compares the rows of the table; it stands for the lookup
  where the keys looked for are integers the database can hold (\<open>in_key_range\<close> below).
  A lookup by a key outside that range is refused with \<^verbatim>\<open>OverflowError\<close> before any
  row is compared, and is not what this function describes.
\<close>

definition get_object_or_404 :: "('a \<Rightarrow> bool) \<Rightarrow> 'a list \<Rightarrow> error + 'a" where
  "get_object_or_404 P rows =
     (case objects_get P rows of
        Inl DoesNotExist \<Rightarrow> Inl Http404
      | Inl e \<Rightarrow> Inl e
      | Inr x \<Rightarrow> Inr x)"

text \<open>The integers a key column holds: 64 bits, signed.\<close>

definition in_key_range :: "int \<Rightarrow> bool" where
  "in_key_range k = (- (2 ^ 63) \<le> k \<and> k < 2 ^ 63)"

text \<open>The key the database gives a new row: above every key in the table.\<close>

definition next_id :: "int list \<Rightarrow> int" where
  "next_id ids = fold max ids 0 + 1"

text \<open>
  \<^verbatim>\<open>Review.objects.create(**validated_data)\<close> and its sibling for comments, which
  \<^verbatim>\<open>ModelSerializer.create\<close> calls: the row takes its columns from the dictionary, and a
  column that is missing or holds the wrong kind of value is refused.
\<close>

definition Review_objects_create :: "store \<Rightarrow> data \<Rightarrow> error + review \<times> store" where
  "Review_objects_create s d =
     (case (d ''author'', d ''title'', d ''rating'') of
        (Some (VUser a), Some (VTitle t), Some (VInt k)) \<Rightarrow>
          (let r = \<lparr>review_id = next_id (map review_id (reviews s)), review_title = t,
                    review_author = a, review_rating = k\<rparr>
           in Inr (r, s\<lparr>reviews := reviews s @ [r]\<rparr>))
      | _ \<Rightarrow> Inl IntegrityError)"

definition Comment_objects_create :: "store \<Rightarrow> data \<Rightarrow> error + comment \<times> store" where
  "Comment_objects_create s d =
     (case (d ''author'', d ''review'') of
        (Some (VUser a), Some (VReview r)) \<Rightarrow>
          (let c = \<lparr>comment_id = next_id (map comment_id (comments s)), comment_review = r,
                    comment_author = a\<rparr>
           in Inr (c, s\<lparr>comments := comments s @ [c]\<rparr>))
      | _ \<Rightarrow> Inl IntegrityError)"

text \<open>
  \<^verbatim>\<open>serializer.save(**kwargs)\<close> on a new object builds the dictionary it creates from as
  \<^verbatim>\<open>{**self.validated_data, **kwargs}\<close>: a keyword argument wins over a validated field of
  the same name.
\<close>

definition serializer_save :: "data \<Rightarrow> data \<Rightarrow> data" where
  "serializer_save validated_data kwargs = validated_data ++ kwargs"

definition request_user :: "user option \<Rightarrow> val" where
  "request_user u = (case u of None \<Rightarrow> VAnonymousUser | Some x \<Rightarrow> VUser (user_id x))"

section \<open>Permissions\<close>

text \<open>\<^verbatim>\<open>rest_framework.permissions.SAFE_METHODS\<close>.\<close>

definition SAFE_METHODS :: "http_method list" where
  "SAFE_METHODS = [GET, HEAD, OPTIONS]"

definition is_authenticated :: "user option \<Rightarrow> bool" where
  "is_authenticated u = (u \<noteq> None)"

definition has_role :: "role \<Rightarrow> user option \<Rightarrow> bool" where
  "has_role x u = (case u of None \<Rightarrow> False | Some w \<Rightarrow> role w = x)"

text \<open>
  Whether the requester is the user an object belongs to: the author of a review or a
  comment, the user of a profile. \<open>None\<close> is an object that belongs to nobody.
\<close>

definition is_owner :: "user option \<Rightarrow> int option \<Rightarrow> bool" where
  "is_owner u owner = (case u of None \<Rightarrow> False | Some w \<Rightarrow> owner = Some (user_id w))"

text \<open>
  Modelled from the spec: the permission classes of \<^verbatim>\<open>api/permissions.py\<close>, which is not
  among the sources; \<^verbatim>\<open>api/views.py\<close> only names them. Each class is given the rules
  of section 4.1 for the resources it guards there: \<open>AdminLevelOrReadOnlyPermission\<close> (titles,
  categories, genres) and \<open>AdminLevelPermission\<close> (the user collection) follow rules 1 and 4,
  "safe methods always allowed" and "unsafe methods allowed only if requester role is admin";
  \<open>IsOwnerAdminModeratorOrReadOnly\<close> (reviews, comments) follows rules 1 to 3, create
  "allowed to any authenticated user", update and delete "if requester role is admin, or
  moderator, or requester is the original author"; \<open>UserAccessPermission\<close> (personal info)
  "requires an authenticated, matching identity". \<open>AllowAny\<close> is the framework's.
  A check on the request comes first (\<open>has_permission\<close>); a check on the object follows
  once a handler has looked the object up (\<open>has_object_permission\<close>).
\<close>

fun has_permission :: "permission_class \<Rightarrow> user option \<Rightarrow> http_method \<Rightarrow> bool" where
  "has_permission AllowAny u m = True"
| "has_permission AdminLevelPermission u m = (m \<in> set SAFE_METHODS \<or> has_role Admin u)"
| "has_permission AdminLevelOrReadOnlyPermission u m =
     (m \<in> set SAFE_METHODS \<or> has_role Admin u)"
| "has_permission IsOwnerAdminModeratorOrReadOnly u m =
     (m \<in> set SAFE_METHODS \<or> is_authenticated u)"
| "has_permission UserAccessPermission u m = is_authenticated u"

fun has_object_permission ::
  "permission_class \<Rightarrow> user option \<Rightarrow> http_method \<Rightarrow> int option \<Rightarrow> bool" where
  "has_object_permission IsOwnerAdminModeratorOrReadOnly u m owner =
     (m \<in> set SAFE_METHODS \<or> has_role Admin u \<or> has_role Moderator u \<or> is_owner u owner)"
| "has_object_permission UserAccessPermission u m owner = is_owner u owner"
| "has_object_permission _ u m owner = True"

text \<open>
  \<^verbatim>\<open>APIView.check_permissions\<close> and \<^verbatim>\<open>APIView.check_object_permissions\<close>: every class of
  \<^verbatim>\<open>permission_classes\<close> has to agree. The classes' own methods are arguments.
\<close>

definition check_permissions ::
  "(permission_class \<Rightarrow> user option \<Rightarrow> http_method \<Rightarrow> bool) \<Rightarrow>
   viewset \<Rightarrow> user option \<Rightarrow> http_method \<Rightarrow> bool" where
  "check_permissions hp vs u m = list_all (\<lambda>p. hp p u m) (permission_classes vs)"

definition check_object_permissions ::
  "(permission_class \<Rightarrow> user option \<Rightarrow> http_method \<Rightarrow> int option \<Rightarrow> bool) \<Rightarrow>
   viewset \<Rightarrow> user option \<Rightarrow> http_method \<Rightarrow> int option \<Rightarrow> bool" where
  "check_object_permissions hop vs u m owner =
     list_all (\<lambda>p. hop p u m owner) (permission_classes vs)"

text \<open>
  \<^verbatim>\<open>APIView.dispatch\<close> up to the choice of the handler: \<^verbatim>\<open>initial\<close> checks the
  permissions on the request first, and a request it refuses never reaches a handler; then
  the handler is picked, and a verb with none is answered method-not-allowed.
\<close>

definition APIView_dispatch ::
  "(permission_class \<Rightarrow> user option \<Rightarrow> http_method \<Rightarrow> bool) \<Rightarrow>
   viewset \<Rightarrow> user option \<Rightarrow> route \<Rightarrow> http_method \<Rightarrow> error + action" where
  "APIView_dispatch hp vs u r m =
     (if \<not> check_permissions hp vs u m then Inl PermissionDenied
      else case handler vs r m of
        None \<Rightarrow> Inl MethodNotAllowed
      | Some a \<Rightarrow> Inr a)"

text \<open>
  What a request is aimed at: a collection (list, create), where no object is looked up, or
  one object, given by the user it belongs to.
\<close>

datatype target = no_object | object "int option"

definition route_target :: "route \<Rightarrow> int option \<Rightarrow> target" where
  "route_target r owner = (case r of list_route \<Rightarrow> no_object | detail_route \<Rightarrow> object owner)"

text \<open>The access decision of a view: both checks, the second only where there is an object.\<close>

definition permitted :: "viewset \<Rightarrow> user option \<Rightarrow> http_method \<Rightarrow> target \<Rightarrow> bool" where
  "permitted vs u m t =
     (check_permissions has_permission vs u m \<and>
      (case t of
         no_object \<Rightarrow> True
       | object owner \<Rightarrow> check_object_permissions has_object_permission vs u m owner))"

subsection \<open>The precedence table of section 4.1, in the spec's words\<close>

datatype resource = Review | Comment | Title | Category | Genre | User | PersonalInfo

record access_request =
  rq_user :: "user option"
  rq_verb :: http_method
  rq_resource :: resource
  rq_owner :: "int option"

text \<open>
  A rule is what it applies to and what it decides there; the first that applies wins. The
  five rules are those of section 4.1, in its order: safe methods, with the exception for
  personal info; create on a review or a comment; update and delete on a review or a
  comment; unsafe methods on titles, categories, genres and the user collection; all other
  cases. \<open>User\<close> is the user collection, \<open>PersonalInfo\<close> the requester's own profile, and
  \<open>rq_owner\<close> the author of the target, or the user a profile is of.
\<close>

type_synonym rule = "(access_request \<Rightarrow> bool) \<times> (access_request \<Rightarrow> bool)"

fun first_match :: "rule list \<Rightarrow> access_request \<Rightarrow> bool" where
  "first_match [] q = False"
| "first_match ((applies, decision) # rules) q =
     (if applies q then decision q else first_match rules q)"

definition precedence_table :: "rule list" where
  "precedence_table =
     [(\<lambda>q. rq_verb q \<in> set SAFE_METHODS,
       \<lambda>q. rq_resource q = PersonalInfo \<longrightarrow>
              is_authenticated (rq_user q) \<and> is_owner (rq_user q) (rq_owner q)),
      (\<lambda>q. rq_verb q = POST \<and> rq_resource q \<in> {Review, Comment},
       \<lambda>q. is_authenticated (rq_user q)),
      (\<lambda>q. rq_verb q \<in> {PUT, PATCH, DELETE} \<and> rq_resource q \<in> {Review, Comment},
       \<lambda>q. has_role Admin (rq_user q) \<or> has_role Moderator (rq_user q)
            \<or> is_owner (rq_user q) (rq_owner q)),
      (\<lambda>q. rq_verb q \<notin> set SAFE_METHODS \<and> rq_resource q \<in> {Title, Category, Genre, User},
       \<lambda>q. has_role Admin (rq_user q)),
      (\<lambda>q. True,
       \<lambda>q. False)]"

text \<open>The view class that serves each resource in \<^verbatim>\<open>api/views.py\<close>.\<close>

fun viewset_of :: "resource \<Rightarrow> viewset" where
  "viewset_of Review = ReviewViewSet"
| "viewset_of Comment = CommentViewSet"
| "viewset_of Title = TitleViewSet"
| "viewset_of Category = CategoryViewSet"
| "viewset_of Genre = GenreViewSet"
| "viewset_of User = UserViewSet"
| "viewset_of PersonalInfo = GetPersonalInfoViewSet"

section \<open>Reviews and comments\<close>

text \<open>
  \<^verbatim>\<open>
  def get_queryset(self):
      title_id = self.kwargs.get('title_id')
      title = get_object_or_404(Title, id=title_id)
      return title.reviews.all()
  \<close>
\<close>

definition ReviewViewSet_get_queryset :: "store \<Rightarrow> int \<Rightarrow> error + review list" where
  "ReviewViewSet_get_queryset s tid =
     (case get_object_or_404 (\<lambda>t. title_id t = tid) (titles s) of
        Inl e \<Rightarrow> Inl e
      | Inr t \<Rightarrow> Inr (filter (\<lambda>r. review_title r = title_id t) (reviews s)))"

text \<open>
  \<^verbatim>\<open>GenericAPIView.get_object\<close> on the review view, which retrieve, update and delete of
  \<^verbatim>\<open>/titles/{title_id}/reviews/{id}/\<close> start with: the review is looked up by its key
  in the view's queryset, and only then checked against the object permissions.
\<close>

definition ReviewViewSet_get_object ::
  "(permission_class \<Rightarrow> user option \<Rightarrow> http_method \<Rightarrow> int option \<Rightarrow> bool) \<Rightarrow>
   store \<Rightarrow> user option \<Rightarrow> http_method \<Rightarrow> int \<Rightarrow> int \<Rightarrow> error + review" where
  "ReviewViewSet_get_object hop s u m tid pk =
     (case ReviewViewSet_get_queryset s tid of
        Inl e \<Rightarrow> Inl e
      | Inr rs \<Rightarrow>
          (case get_object_or_404 (\<lambda>r. review_id r = pk) rs of
             Inl e \<Rightarrow> Inl e
           | Inr r \<Rightarrow>
               if check_object_permissions hop ReviewViewSet u m (Some (review_author r))
               then Inr r else Inl PermissionDenied))"

text \<open>
  \<^verbatim>\<open>
  def perform_create(self, serializer):
      title_id = self.kwargs.get('title_id')
      title = get_object_or_404(Title, id=title_id)
      serializer.save(author=self.request.user, title=title)
  \<close>
  The serializer comes in as the data it has validated.
\<close>

definition ReviewViewSet_perform_create ::
  "store \<Rightarrow> int \<Rightarrow> user option \<Rightarrow> data \<Rightarrow> error + review \<times> store" where
  "ReviewViewSet_perform_create s tid u validated_data =
     (case get_object_or_404 (\<lambda>t. title_id t = tid) (titles s) of
        Inl e \<Rightarrow> Inl e
      | Inr t \<Rightarrow>
          Review_objects_create s
            (serializer_save validated_data
               [''author'' \<mapsto> request_user u, ''title'' \<mapsto> VTitle (title_id t)]))"

text \<open>
  \<^verbatim>\<open>
  def get_queryset(self):
      title_id = self.kwargs.get('title_id')
      review_id = self.kwargs.get('review_id')
      review = get_object_or_404(Review, id=review_id, title=title_id)
      return review.comments.all()
  \<close>
\<close>

definition CommentViewSet_get_queryset :: "store \<Rightarrow> int \<Rightarrow> int \<Rightarrow> error + comment list" where
  "CommentViewSet_get_queryset s tid rid =
     (case get_object_or_404 (\<lambda>r. review_id r = rid \<and> review_title r = tid) (reviews s) of
        Inl e \<Rightarrow> Inl e
      | Inr r \<Rightarrow> Inr (filter (\<lambda>c. comment_review c = review_id r) (comments s)))"

text \<open>
  \<^verbatim>\<open>
  def perform_create(self, serializer):
      title_id = self.kwargs.get('title_id')
      review_id = self.kwargs.get('review_id')
      review = get_object_or_404(Review, id=review_id, title=title_id)
      serializer.save(author=self.request.user, review=review)
  \<close>
\<close>

definition CommentViewSet_perform_create ::
  "store \<Rightarrow> int \<Rightarrow> int \<Rightarrow> user option \<Rightarrow> data \<Rightarrow> error + comment \<times> store" where
  "CommentViewSet_perform_create s tid rid u validated_data =
     (case get_object_or_404 (\<lambda>r. review_id r = rid \<and> review_title r = tid) (reviews s) of
        Inl e \<Rightarrow> Inl e
      | Inr r \<Rightarrow>
          Comment_objects_create s
            (serializer_save validated_data
               [''author'' \<mapsto> request_user u, ''review'' \<mapsto> VReview (review_id r)]))"

subsection \<open>A request to the comment endpoints, from dispatch to response\<close>

text \<open>
  The requests followed here: list and create on
  \<^verbatim>\<open>/titles/{title_id}/reviews/{review_id}/comments/\<close>, retrieve and delete on
  \<^verbatim>\<open>.../comments/{id}/\<close>. A create carries the request body.
\<close>

datatype comment_request = ListOp | CreateOp data | RetrieveOp int | DestroyOp int

fun op_method :: "comment_request \<Rightarrow> http_method" where
  "op_method ListOp = GET"
| "op_method (CreateOp body) = POST"
| "op_method (RetrieveOp pk) = GET"
| "op_method (DestroyOp pk) = DELETE"

fun op_route :: "comment_request \<Rightarrow> route" where
  "op_route ListOp = list_route"
| "op_route (CreateOp body) = list_route"
| "op_route (RetrieveOp pk) = detail_route"
| "op_route (DestroyOp pk) = detail_route"

datatype response = Listing "comment list" | Detail comment | Created comment | NoContent

text \<open>
  \<^verbatim>\<open>GenericAPIView.get_object\<close>: the object is looked up in the view's queryset, and only
  then checked against the object permissions.
\<close>

definition CommentViewSet_get_object ::
  "(permission_class \<Rightarrow> user option \<Rightarrow> http_method \<Rightarrow> int option \<Rightarrow> bool) \<Rightarrow>
   store \<Rightarrow> user option \<Rightarrow> http_method \<Rightarrow> int \<Rightarrow> int \<Rightarrow> int \<Rightarrow> error + comment" where
  "CommentViewSet_get_object hop s u m tid rid pk =
     (case CommentViewSet_get_queryset s tid rid of
        Inl e \<Rightarrow> Inl e
      | Inr cs \<Rightarrow>
          (case get_object_or_404 (\<lambda>c. comment_id c = pk) cs of
             Inl e \<Rightarrow> Inl e
           | Inr c \<Rightarrow>
               if check_object_permissions hop CommentViewSet u m (Some (comment_author c))
               then Inr c else Inl PermissionDenied))"

text \<open>
  The handlers are the framework's mixins over the two hooks above. \<^verbatim>\<open>create\<close> is
  \<^verbatim>\<open>
  serializer = self.get_serializer(data=request.data)
  serializer.is_valid(raise_exception=True)
  self.perform_create(serializer)
  \<close>
  \<^verbatim>\<open>CommentSerializer\<close> (\<^verbatim>\<open>api/serializers.py\<close>, not among the sources) is the argument
  \<open>validate\<close>: the validated data of a body, or \<open>None\<close> for a body it refuses. The methods
  of the permission classes are the arguments \<open>hp\<close> and \<open>hop\<close>.
  \<^verbatim>\<open>APIView.dispatch\<close> runs \<^verbatim>\<open>initial\<close>, which checks the permissions on the request,
  before it picks the handler.
\<close>

definition CommentViewSet_dispatch ::
  "(permission_class \<Rightarrow> user option \<Rightarrow> http_method \<Rightarrow> bool) \<Rightarrow>
   (permission_class \<Rightarrow> user option \<Rightarrow> http_method \<Rightarrow> int option \<Rightarrow> bool) \<Rightarrow>
   (data \<Rightarrow> data option) \<Rightarrow>
   store \<Rightarrow> user option \<Rightarrow> int \<Rightarrow> int \<Rightarrow> comment_request \<Rightarrow> error + response \<times> store" where
  "CommentViewSet_dispatch hp hop validate s u tid rid rq =
     (if \<not> check_permissions hp CommentViewSet u (op_method rq) then Inl PermissionDenied
      else case handler CommentViewSet (op_route rq) (op_method rq) of
        None \<Rightarrow> Inl MethodNotAllowed
      | Some a \<Rightarrow>
          (case rq of
             ListOp \<Rightarrow>
               (case CommentViewSet_get_queryset s tid rid of
                  Inl e \<Rightarrow> Inl e
                | Inr cs \<Rightarrow> Inr (Listing cs, s))
           | CreateOp body \<Rightarrow>
               (case validate body of
                  None \<Rightarrow> Inl ValidationError
                | Some validated_data \<Rightarrow>
                    (case CommentViewSet_perform_create s tid rid u validated_data of
                       Inl e \<Rightarrow> Inl e
                     | Inr (c, s') \<Rightarrow> Inr (Created c, s')))
           | RetrieveOp pk \<Rightarrow>
               (case CommentViewSet_get_object hop s u GET tid rid pk of
                  Inl e \<Rightarrow> Inl e
                | Inr c \<Rightarrow> Inr (Detail c, s))
           | DestroyOp pk \<Rightarrow>
               (case CommentViewSet_get_object hop s u DELETE tid rid pk of
                  Inl e \<Rightarrow> Inl e
                | Inr c \<Rightarrow>
                    Inr (NoContent,
                         s\<lparr>comments := filter (\<lambda>x. comment_id x \<noteq> comment_id c) (comments s)\<rparr>))))"

section \<open>The title list\<close>

text \<open>
  The aggregate \<^verbatim>\<open>Avg\<close> over the rows of a group: null for no rows, else their mean. The
  database computes it; the mean is kept exact here, as a rational.
\<close>

definition Avg :: "int list \<Rightarrow> rat option" where
  "Avg xs = (if xs = [] then None else Some (of_int (sum_list xs) / of_nat (length xs)))"

text \<open>The ratings \<^verbatim>\<open>reviews__rating\<close> reaches from a title: those of its reviews.\<close>

definition reviews__rating :: "store \<Rightarrow> title \<Rightarrow> int list" where
  "reviews__rating s t =
     map review_rating (filter (\<lambda>r. review_title r = title_id t) (reviews s))"

definition annotate_rating :: "store \<Rightarrow> title list \<Rightarrow> (title \<times> rat option) list" where
  "annotate_rating s ts = map (\<lambda>t. (t, Avg (reviews__rating s t))) ts"

text \<open>\<^verbatim>\<open>order_by('-id')\<close>.\<close>

definition order_by_desc_id :: "(title \<times> rat option) list \<Rightarrow> (title \<times> rat option) list" where
  "order_by_desc_id rows = sort_key (\<lambda>row. - title_id (fst row)) rows"

text \<open>
  \<^verbatim>\<open>
  queryset = Title.objects.annotate(
      rating=Avg('reviews__rating')
  ).order_by('-id')
  \<close>
  A queryset is a query, run against the store each time a request reads it.
\<close>

definition TitleViewSet_queryset :: "store \<Rightarrow> (title \<times> rat option) list" where
  "TitleViewSet_queryset s = order_by_desc_id (annotate_rating s (titles s))"

text \<open>
  \<^verbatim>\<open>ListModelMixin.list\<close>: the queryset, narrowed by the view's filter. \<^verbatim>\<open>TitleFilter\<close>
  (\<^verbatim>\<open>api/filters.py\<close>, not among the sources) is the argument \<open>title_filter\<close>, with the
  query parameters already applied: the titles it lets through.
\<close>

definition TitleViewSet_list :: "(title \<Rightarrow> bool) \<Rightarrow> store \<Rightarrow> (title \<times> rat option) list" where
  "TitleViewSet_list title_filter s =
     filter (\<lambda>row. title_filter (fst row)) (TitleViewSet_queryset s)"

section \<open>Registration and token issuance\<close>

text \<open>The body of a request to the two endpoints, and what they answer with status 200.\<close>

type_synonym form = "string \<rightharpoonup> string"

datatype ok_response = HTTP_200_OK "(string \<times> string) list"

text \<open>
  \<^verbatim>\<open>
  def post(self, request):
      serializer = self.serializer_class(data=request.data)
      serializer.is_valid(raise_exception=True)
      user = serializer.save()
      token = user.confirmation_code
      send_mail(
          'Confirmation code', f'Your code: {token}', 'awesome@guy.com',
          [user.email],
          fail_silently=False,)
      return Response(serializer.data, status=status.HTTP_200_OK)
  \<close>
  The serializer is three arguments: \<open>is_valid\<close>, \<open>save\<close> and \<open>data\<close>.
\<close>

definition code_text :: "string option \<Rightarrow> string" where
  "code_text c = (case c of None \<Rightarrow> ''None'' | Some x \<Rightarrow> x)"

definition RegisterNewUserAPIView_post ::
  "(store \<Rightarrow> form \<Rightarrow> bool) \<Rightarrow> (store \<Rightarrow> form \<Rightarrow> error + user \<times> store) \<Rightarrow>
   (user \<Rightarrow> (string \<times> string) list) \<Rightarrow>
   store \<Rightarrow> form \<Rightarrow> error + ok_response \<times> store" where
  "RegisterNewUserAPIView_post is_valid save data s request_data =
     (if \<not> is_valid s request_data then Inl ValidationError
      else case save s request_data of
        Inl e \<Rightarrow> Inl e
      | Inr (user, s') \<Rightarrow>
          (let token = confirmation_code user;
               sent = \<lparr>subject = ''Confirmation code'',
                       message = ''Your code: '' @ code_text token,
                       from_email = ''awesome@guy.com'',
                       recipient_list = [email user]\<rparr>
           in Inr (HTTP_200_OK (data user), s'\<lparr>outbox := outbox s' @ [sent]\<rparr>)))"

text \<open>
  \<^verbatim>\<open>
  def post(self, request):
      serializer = self.serializer_class(data=request.data)
      serializer.is_valid(raise_exception=True)
      user = User.objects.get(username=request.data['username'])
      token = SlidingToken.for_user(user)
      return Response({'Token': str(token)}, status.HTTP_200_OK)
  \<close>
  The token library is the argument \<open>for_user\<close>: the signed token of a user, as text.
\<close>

definition CustomJWTTokenView_post ::
  "(store \<Rightarrow> form \<Rightarrow> bool) \<Rightarrow> (user \<Rightarrow> string) \<Rightarrow> store \<Rightarrow> form \<Rightarrow> error + ok_response" where
  "CustomJWTTokenView_post is_valid for_user s request_data =
     (if \<not> is_valid s request_data then Inl ValidationError
      else case request_data ''username'' of
        None \<Rightarrow> Inl KeyError
      | Some name \<Rightarrow>
          (case objects_get (\<lambda>u. username u = name) (users s) of
             Inl e \<Rightarrow> Inl e
           | Inr user \<Rightarrow> Inr (HTTP_200_OK [(''Token'', for_user user)])))"

text \<open>
  Modelled from the spec: \<^verbatim>\<open>GetJWTTokenSerializer\<close> (\<^verbatim>\<open>api/serializers.py\<close> is not among
  the sources). Section 4.3: token issuance "accepts (username, confirmation code), and on
  match issues a signed session token; on mismatch it must fail without revealing which of
  username/code was wrong". The serializer accepts a body exactly when some user has that
  username and holds that code, and has one way of refusing.
\<close>

definition GetJWTTokenSerializer_is_valid :: "store \<Rightarrow> form \<Rightarrow> bool" where
  "GetJWTTokenSerializer_is_valid s d =
     (case (d ''username'', d ''confirmation_code'') of
        (Some name, Some code) \<Rightarrow>
          list_ex (\<lambda>u. username u = name \<and> confirmation_code u = Some code) (users s)
      | _ \<Rightarrow> False)"

text \<open>
  Modelled from the spec: \<^verbatim>\<open>CreateUserSerializer\<close> (\<^verbatim>\<open>api/serializers.py\<close> is not among
  the sources). Section 4.3: registration "accepts an identity (username + email), creates
  or reuses a pending User record, generates a single-use confirmation code", and
  "re-registration with an existing but unconfirmed username must be idempotent (reissue a
  new code rather than erroring)"; section 3 makes username and email unique. So a body is
  accepted when its username and email are both new, or are those of one pending record;
  \<open>save\<close> reuses that record or makes a new one with the role regular, and stores a code
  from the generator, which is the argument \<open>gen\<close>. The answer echoes the identity
  (section 6).
\<close>

definition CreateUserSerializer_is_valid :: "store \<Rightarrow> form \<Rightarrow> bool" where
  "CreateUserSerializer_is_valid s d =
     (case (d ''username'', d ''email'') of
        (Some name, Some addr) \<Rightarrow>
          list_all (\<lambda>u. username u \<noteq> name \<and> email u \<noteq> addr) (users s)
          \<or> list_ex (\<lambda>u. username u = name \<and> email u = addr \<and> confirmation_code u \<noteq> None)
               (users s)
      | _ \<Rightarrow> False)"

definition CreateUserSerializer_save ::
  "(store \<Rightarrow> string) \<Rightarrow> store \<Rightarrow> form \<Rightarrow> error + user \<times> store" where
  "CreateUserSerializer_save gen s d =
     (case (d ''username'', d ''email'') of
        (Some name, Some addr) \<Rightarrow>
          (case find (\<lambda>u. username u = name) (users s) of
             Some u \<Rightarrow>
               Inr (u\<lparr>confirmation_code := Some (gen s)\<rparr>,
                    s\<lparr>users :=
                        map (\<lambda>x. if username x = name
                                 then x\<lparr>confirmation_code := Some (gen s)\<rparr> else x)
                          (users s)\<rparr>)
           | None \<Rightarrow>
               (let u = \<lparr>user_id = next_id (map user_id (users s)), username = name,
                         email = addr, role = Regular, confirmation_code = Some (gen s)\<rparr>
                in Inr (u, s\<lparr>users := users s @ [u]\<rparr>)))
      | _ \<Rightarrow> Inl KeyError)"

definition CreateUserSerializer_data :: "user \<Rightarrow> (string \<times> string) list" where
  "CreateUserSerializer_data u = [(''username'', username u), (''email'', email u)]"

text \<open>The two views with the serializer each names as its \<^verbatim>\<open>serializer_class\<close>.\<close>

definition RegisterNewUserAPIView ::
  "(store \<Rightarrow> string) \<Rightarrow> store \<Rightarrow> form \<Rightarrow> error + ok_response \<times> store" where
  "RegisterNewUserAPIView gen =
     RegisterNewUserAPIView_post CreateUserSerializer_is_valid (CreateUserSerializer_save gen)
       CreateUserSerializer_data"

definition CustomJWTTokenView :: "(user \<Rightarrow> string) \<Rightarrow> store \<Rightarrow> form \<Rightarrow> error + ok_response" where
  "CustomJWTTokenView = CustomJWTTokenView_post GetJWTTokenSerializer_is_valid"

section \<open>A small store for the concrete cases\<close>

definition alice :: user where
  "alice = \<lparr>user_id = 1, username = ''alice'', email = ''alice@example.org'', role = Regular,
            confirmation_code = Some ''c0de''\<rparr>"

definition moderator :: user where
  "moderator = \<lparr>user_id = 2, username = ''mod'', email = ''mod@example.org'', role = Moderator,
                confirmation_code = None\<rparr>"

text \<open>
  Two titles, one review, of title 2 and by alice, and one comment on it, by alice; the
  path \<^verbatim>\<open>/titles/1/reviews/7/\<close> mismatches.
\<close>

definition two_titles :: store where
  "two_titles =
     \<lparr>users = [alice, moderator],
      titles = [\<lparr>title_id = 1, title_fields = Map.empty\<rparr>,
                \<lparr>title_id = 2, title_fields = Map.empty\<rparr>],
      reviews = [\<lparr>review_id = 7, review_title = 2, review_author = 1, review_rating = 8\<rparr>],
      comments = [\<lparr>comment_id = 3, comment_review = 7, comment_author = 1\<rparr>],
      outbox = []\<rparr>"

text \<open>A comment serializer that refuses a body without a text.\<close>

definition text_required :: "data \<Rightarrow> data option" where
  "text_required body = (if body ''text'' = None then None else Some body)"

section \<open>Verbs of the review and comment endpoints\<close>

lemmas viewset_defs =
  ReviewViewSet_def CommentViewSet_def CategoryViewSet_def GenreViewSet_def
  TitleViewSet_def UserViewSet_def GetPersonalInfoViewSet_def
  ModelViewSet_def ListCreateDestroyViewSet_def View_http_method_names_def

lemmas handler_defs = handler_def bound_handler_def routed_def actions_def

lemma handler_ReviewViewSet:
  "handler ReviewViewSet r m =
     (case (r, m) of
        (list_route, GET) \<Rightarrow> Some act_list
      | (list_route, POST) \<Rightarrow> Some act_create
      | (detail_route, GET) \<Rightarrow> Some act_retrieve
      | (detail_route, PATCH) \<Rightarrow> Some act_partial_update
      | (detail_route, DELETE) \<Rightarrow> Some act_destroy
      | _ \<Rightarrow> None)"
  by (cases r; cases m) (simp_all add: handler_defs viewset_defs)

lemma handler_CommentViewSet: "handler CommentViewSet r m = handler ReviewViewSet r m"
  by (simp add: handler_defs viewset_defs)

text \<open>
  C9: on the review and the comment endpoints a verb is served on some route exactly when
  it is GET, POST, PATCH or DELETE. PUT is answered by method-not-allowed on both routes,
  PATCH on an item is the partial update, and no verb reaches the full update.
\<close>

theorem review_comment_verbs:
  "(\<exists>r. handler ReviewViewSet r m \<noteq> None) = (m \<in> {GET, POST, PATCH, DELETE})
   \<and> (\<exists>r. handler CommentViewSet r m \<noteq> None) = (m \<in> {GET, POST, PATCH, DELETE})
   \<and> handler ReviewViewSet r PUT = None
   \<and> handler CommentViewSet r PUT = None
   \<and> handler ReviewViewSet detail_route PATCH = Some act_partial_update
   \<and> handler CommentViewSet detail_route PATCH = Some act_partial_update
   \<and> handler ReviewViewSet r m \<noteq> Some act_update
   \<and> handler CommentViewSet r m \<noteq> Some act_update"
proof -
  have some: "(\<exists>r. handler ReviewViewSet r m \<noteq> None) = (m \<in> {GET, POST, PATCH, DELETE})"
  proof (cases m)
    case GET
    have "handler ReviewViewSet list_route GET \<noteq> None"
      by (simp add: handler_ReviewViewSet)
    with GET show ?thesis by auto
  next
    case POST
    have "handler ReviewViewSet list_route POST \<noteq> None"
      by (simp add: handler_ReviewViewSet)
    with POST show ?thesis by auto
  next
    case PATCH
    have "handler ReviewViewSet detail_route PATCH \<noteq> None"
      by (simp add: handler_ReviewViewSet)
    with PATCH show ?thesis by auto
  next
    case DELETE
    have "handler ReviewViewSet detail_route DELETE \<noteq> None"
      by (simp add: handler_ReviewViewSet)
    with DELETE show ?thesis by auto
  qed (simp_all add: handler_ReviewViewSet split: route.splits)
  have put: "handler ReviewViewSet r PUT = None"
    by (simp add: handler_ReviewViewSet split: route.splits)
  have upd: "handler ReviewViewSet r m \<noteq> Some act_update"
    by (cases r; cases m) (simp_all add: handler_ReviewViewSet)
  show ?thesis
    using some put upd by (simp add: handler_CommentViewSet handler_ReviewViewSet)
qed

theorem review_comment_verbs_witness:
  "(\<exists>r. handler ReviewViewSet r PATCH \<noteq> None)
   \<and> handler CommentViewSet list_route PUT = None
   \<and> handler ReviewViewSet detail_route PUT = None"
  using review_comment_verbs [of PATCH detail_route] review_comment_verbs [of PUT list_route]
  by simp

section \<open>Looking a row up\<close>

lemma get_object_or_404_Inr:
  "get_object_or_404 P rows = Inr x \<Longrightarrow> x \<in> set rows \<and> P x"
proof -
  assume a: "get_object_or_404 P rows = Inr x"
  then have "filter P rows = [x]"
    by (auto simp: get_object_or_404_def objects_get_def split: list.splits error.splits)
  then have "x \<in> set (filter P rows)" by simp
  then show ?thesis by simp
qed

lemma get_object_or_404_one:
  "filter P rows = [x] \<Longrightarrow> get_object_or_404 P rows = Inr x"
  by (simp add: get_object_or_404_def objects_get_def)

lemma get_object_or_404_none:
  "\<not> (\<exists>x \<in> set rows. P x) \<Longrightarrow> get_object_or_404 P rows = Inl Http404"
proof -
  assume "\<not> (\<exists>x \<in> set rows. P x)"
  then have "filter P rows = []" by (simp add: filter_empty_conv)
  then show ?thesis by (simp add: get_object_or_404_def objects_get_def)
qed

lemma filter_unique:
  "distinct (map f xs) \<Longrightarrow> x \<in> set xs \<Longrightarrow> filter (\<lambda>y. f y = f x) xs = [x]"
proof (induction xs)
  case Nil
  then show ?case by simp
next
  case (Cons a xs)
  show ?case
  proof (cases "x = a")
    case True
    from Cons.prems(1) have "f a \<notin> f ` set xs" by simp
    then have "\<forall>y \<in> set xs. f y \<noteq> f a" by (metis image_eqI)
    then have "filter (\<lambda>y. f y = f a) xs = []" by (simp add: filter_empty_conv)
    with True show ?thesis by simp
  next
    case False
    with Cons.prems have in_xs: "x \<in> set xs" and "distinct (map f xs)" by auto
    then have rest: "filter (\<lambda>y. f y = f x) xs = [x]" by (rule Cons.IH [rotated])
    from Cons.prems(1) in_xs have "f a \<noteq> f x" by auto
    with rest show ?thesis by simp
  qed
qed

lemma find_unique:
  "distinct (map f xs) \<Longrightarrow> x \<in> set xs \<Longrightarrow> find (\<lambda>y. f y = f x) xs = Some x"
proof (induction xs)
  case Nil
  then show ?case by simp
next
  case (Cons a xs)
  show ?case
  proof (cases "x = a")
    case True
    then show ?thesis by simp
  next
    case False
    with Cons.prems have in_xs: "x \<in> set xs" and "distinct (map f xs)" by auto
    then have rest: "find (\<lambda>y. f y = f x) xs = Some x" by (rule Cons.IH [rotated])
    from Cons.prems(1) in_xs have "f a \<noteq> f x" by auto
    with rest show ?thesis by simp
  qed
qed

section \<open>Verbs of the category and genre endpoints\<close>

lemma handler_CategoryViewSet:
  "handler CategoryViewSet r m =
     (case (r, m) of
        (list_route, GET) \<Rightarrow> Some act_list
      | (list_route, POST) \<Rightarrow> Some act_create
      | (list_route, HEAD) \<Rightarrow> Some act_list
      | (detail_route, DELETE) \<Rightarrow> Some act_destroy
      | (_, OPTIONS) \<Rightarrow> Some act_options
      | _ \<Rightarrow> None)"
  by (cases r; cases m) (simp_all add: handler_defs viewset_defs)

lemma handler_GenreViewSet: "handler GenreViewSet r m = handler CategoryViewSet r m"
  by (simp add: handler_defs viewset_defs)

lemma permitted_admin_or_read_only:
  assumes "permission_classes vs = [AdminLevelOrReadOnlyPermission]"
  shows "permitted vs u m t = (m \<in> set SAFE_METHODS \<or> has_role Admin u)"
  using assms
  by (cases t) (simp_all add: permitted_def check_permissions_def check_object_permissions_def)

lemma dispatch_category_genre:
  assumes "vs \<in> {CategoryViewSet, GenreViewSet}"
  shows "APIView_dispatch hp vs u r m =
     (if \<not> check_permissions hp vs u m then Inl PermissionDenied
      else case handler CategoryViewSet r m of
        None \<Rightarrow> Inl MethodNotAllowed
      | Some a \<Rightarrow> Inr a)"
  using assms by (auto simp: APIView_dispatch_def handler_GenreViewSet)

lemma check_admin_or_read_only:
  assumes "vs \<in> {CategoryViewSet, GenreViewSet}"
  shows "check_permissions has_permission vs u m = (m \<in> set SAFE_METHODS \<or> has_role Admin u)"
  using assms by (auto simp: check_permissions_def viewset_defs)

text \<open>
  C3, as the claim states it: a retrieve and a partial update exist on
  \<^verbatim>\<open>/categories/{slug}\<close> and \<^verbatim>\<open>/genres/{slug}\<close>. Neither class has the action, no handler
  is bound to GET or PATCH on an item, and an anonymous GET of an item, which the
  permission check lets through, is answered method-not-allowed.
\<close>

theorem category_genre_retrieve_counterexample:
  "act_retrieve \<notin> set (actions CategoryViewSet)
   \<and> act_partial_update \<notin> set (actions CategoryViewSet)
   \<and> handler CategoryViewSet detail_route GET = None
   \<and> handler CategoryViewSet detail_route PATCH = None
   \<and> handler GenreViewSet detail_route GET = None
   \<and> handler GenreViewSet detail_route PATCH = None
   \<and> APIView_dispatch has_permission CategoryViewSet None detail_route GET
       = Inl MethodNotAllowed
   \<and> APIView_dispatch has_permission GenreViewSet None detail_route GET
       = Inl MethodNotAllowed"
proof -
  have "set (actions CategoryViewSet) = {act_list, act_create, act_destroy}"
    by (auto simp: actions_def viewset_defs)
  then show ?thesis
    by (simp add: handler_GenreViewSet handler_CategoryViewSet dispatch_category_genre
          check_admin_or_read_only SAFE_METHODS_def)
qed

text \<open>
  C3, amended: the category and genre classes have the actions list, create and destroy
  and no other. Of GET, POST, PATCH and DELETE the collection has a handler for GET (list)
  and POST (create), an item \<^verbatim>\<open>/{slug}\<close> for DELETE only. Reading is open to everyone;
  create and delete are for an admin. So a request is answered as follows. The list
  is served to every requester; create and delete are served to an admin and refused by the
  permission check to everyone else. GET on an item is answered method-not-allowed to
  every requester. PATCH on an item is answered method-not-allowed to an admin, and is
  refused by the permission check, which comes first, to everyone else. Whatever the
  permission classes decide, GET and PATCH on an item end in one of these two answers and
  never in a handler.
\<close>

theorem category_genre_verbs:
  assumes "vs \<in> {CategoryViewSet, GenreViewSet}"
  shows "set (actions vs) = {act_list, act_create, act_destroy}
   \<and> handler vs list_route GET = Some act_list
   \<and> handler vs list_route POST = Some act_create
   \<and> handler vs detail_route DELETE = Some act_destroy
   \<and> handler vs detail_route GET = None
   \<and> handler vs detail_route PATCH = None
   \<and> handler vs detail_route POST = None
   \<and> handler vs list_route PATCH = None
   \<and> handler vs list_route DELETE = None
   \<and> permitted vs u GET no_object
   \<and> permitted vs u POST no_object = has_role Admin u
   \<and> permitted vs u DELETE (object owner) = has_role Admin u
   \<and> APIView_dispatch has_permission vs u list_route GET = Inr act_list
   \<and> APIView_dispatch has_permission vs u list_route POST =
       (if has_role Admin u then Inr act_create else Inl PermissionDenied)
   \<and> APIView_dispatch has_permission vs u detail_route DELETE =
       (if has_role Admin u then Inr act_destroy else Inl PermissionDenied)
   \<and> APIView_dispatch has_permission vs u detail_route GET = Inl MethodNotAllowed
   \<and> APIView_dispatch has_permission vs u detail_route PATCH =
       (if has_role Admin u then Inl MethodNotAllowed else Inl PermissionDenied)
   \<and> APIView_dispatch hp vs u detail_route GET =
       (if check_permissions hp vs u GET then Inl MethodNotAllowed else Inl PermissionDenied)
   \<and> APIView_dispatch hp vs u detail_route PATCH =
       (if check_permissions hp vs u PATCH then Inl MethodNotAllowed else Inl PermissionDenied)"
proof -
  have acts: "set (actions vs) = {act_list, act_create, act_destroy}"
    using assms by (auto simp: actions_def viewset_defs)
  note d = dispatch_category_genre [OF assms]
  note c = check_admin_or_read_only [OF assms]
  have verbs: "handler vs r m = handler CategoryViewSet r m" for r m
    using assms by (auto simp: handler_GenreViewSet)
  have "permission_classes vs = [AdminLevelOrReadOnlyPermission]"
    using assms by (auto simp: viewset_defs)
  then have perm: "permitted vs u m t = (m \<in> set SAFE_METHODS \<or> has_role Admin u)" for m t
    by (rule permitted_admin_or_read_only)
  have answers:
    "APIView_dispatch has_permission vs u list_route GET = Inr act_list"
    "APIView_dispatch has_permission vs u list_route POST =
       (if has_role Admin u then Inr act_create else Inl PermissionDenied)"
    "APIView_dispatch has_permission vs u detail_route DELETE =
       (if has_role Admin u then Inr act_destroy else Inl PermissionDenied)"
    "APIView_dispatch has_permission vs u detail_route GET = Inl MethodNotAllowed"
    "APIView_dispatch has_permission vs u detail_route PATCH =
       (if has_role Admin u then Inl MethodNotAllowed else Inl PermissionDenied)"
    by (simp_all add: d c handler_CategoryViewSet SAFE_METHODS_def)
  have any:
    "APIView_dispatch hp vs u detail_route GET =
       (if check_permissions hp vs u GET then Inl MethodNotAllowed else Inl PermissionDenied)"
    "APIView_dispatch hp vs u detail_route PATCH =
       (if check_permissions hp vs u PATCH then Inl MethodNotAllowed else Inl PermissionDenied)"
    by (simp_all add: d handler_CategoryViewSet)
  have rest: "set (actions vs) = {act_list, act_create, act_destroy}
   \<and> handler vs list_route GET = Some act_list
   \<and> handler vs list_route POST = Some act_create
   \<and> handler vs detail_route DELETE = Some act_destroy
   \<and> handler vs detail_route GET = None
   \<and> handler vs detail_route PATCH = None
   \<and> handler vs detail_route POST = None
   \<and> handler vs list_route PATCH = None
   \<and> handler vs list_route DELETE = None
   \<and> permitted vs u GET no_object
   \<and> permitted vs u POST no_object = has_role Admin u
   \<and> permitted vs u DELETE (object owner) = has_role Admin u"
    by (simp add: acts verbs perm handler_CategoryViewSet SAFE_METHODS_def)
  from rest answers any show ?thesis by blast
qed

theorem category_genre_verbs_witness:
  "handler GenreViewSet detail_route DELETE = Some act_destroy
   \<and> handler GenreViewSet detail_route GET = None
   \<and> permitted GenreViewSet None GET no_object
   \<and> permitted GenreViewSet None POST no_object = False
   \<and> APIView_dispatch has_permission GenreViewSet None detail_route GET
       = Inl MethodNotAllowed
   \<and> APIView_dispatch has_permission GenreViewSet None detail_route PATCH
       = Inl PermissionDenied"
  using category_genre_verbs [of GenreViewSet None None has_permission]
  by (simp add: has_role_def)

section \<open>The access decision against the precedence table\<close>

lemma permitted_ReviewViewSet:
  "permitted ReviewViewSet u m t =
     ((m \<in> set SAFE_METHODS \<or> is_authenticated u) \<and>
      (case t of
         no_object \<Rightarrow> True
       | object owner \<Rightarrow>
           m \<in> set SAFE_METHODS \<or> has_role Admin u \<or> has_role Moderator u \<or> is_owner u owner))"
  by (cases t)
     (simp_all add: permitted_def check_permissions_def check_object_permissions_def viewset_defs)

lemma permitted_CommentViewSet: "permitted CommentViewSet u m t = permitted ReviewViewSet u m t"
  by (simp add: permitted_def check_permissions_def check_object_permissions_def viewset_defs)

lemma permitted_UserViewSet:
  "permitted UserViewSet u m t = (m \<in> set SAFE_METHODS \<or> has_role Admin u)"
  by (cases t)
     (simp_all add: permitted_def check_permissions_def check_object_permissions_def viewset_defs)

lemma permitted_GetPersonalInfoViewSet:
  "permitted GetPersonalInfoViewSet u m (object owner) = (is_authenticated u \<and> is_owner u owner)"
  by (simp add: permitted_def check_permissions_def check_object_permissions_def viewset_defs)

lemma role_implies_authenticated: "has_role x u \<Longrightarrow> is_authenticated u"
  by (cases u) (simp_all add: has_role_def is_authenticated_def)

lemma owner_implies_authenticated: "is_owner u owner \<Longrightarrow> is_authenticated u"
  by (cases u) (simp_all add: is_owner_def is_authenticated_def)

lemma first_match_table:
  "first_match precedence_table q =
     (if rq_verb q \<in> set SAFE_METHODS
        then rq_resource q = PersonalInfo \<longrightarrow>
               is_authenticated (rq_user q) \<and> is_owner (rq_user q) (rq_owner q)
      else if rq_verb q = POST \<and> rq_resource q \<in> {Review, Comment}
        then is_authenticated (rq_user q)
      else if rq_verb q \<in> {PUT, PATCH, DELETE} \<and> rq_resource q \<in> {Review, Comment}
        then has_role Admin (rq_user q) \<or> has_role Moderator (rq_user q)
             \<or> is_owner (rq_user q) (rq_owner q)
      else if rq_resource q \<in> {Title, Category, Genre, User} then has_role Admin (rq_user q)
      else False)"
  by (simp add: precedence_table_def)

text \<open>
  C1: for every requester (anonymous, or a user of any role), every verb of GET, POST,
  PATCH and DELETE on a route that has it, and each of the resources review, comment,
  title, category, genre and user, the decision of the view class that serves the resource
  is the decision of the first rule of the precedence table that applies. In particular
  GET is allowed to every requester on each of these resources. On the personal-info
  endpoint GET is allowed exactly to an authenticated requester whose identity is the
  profile's, by the view and by the table alike.
\<close>

theorem access_decision_is_first_matching_rule:
  assumes "m \<in> {GET, POST, PATCH, DELETE}"
    and "route_mapping r m \<noteq> None"
    and "res \<noteq> PersonalInfo"
  shows "permitted (viewset_of res) u m (route_target r owner) =
           first_match precedence_table
             \<lparr>rq_user = u, rq_verb = m, rq_resource = res, rq_owner = owner\<rparr>
   \<and> permitted (viewset_of res) u GET (route_target r owner)
   \<and> permitted (viewset_of PersonalInfo) u GET (object owner) =
       (is_authenticated u \<and> is_owner u owner)
   \<and> first_match precedence_table
       \<lparr>rq_user = u, rq_verb = GET, rq_resource = PersonalInfo, rq_owner = owner\<rparr> =
       (is_authenticated u \<and> is_owner u owner)"
proof -
  have adm: "permitted vs u m t = (m \<in> set SAFE_METHODS \<or> has_role Admin u)"
    if "vs \<in> {TitleViewSet, CategoryViewSet, GenreViewSet, UserViewSet}" for vs m t
    using that permitted_admin_or_read_only [of vs u m t] permitted_UserViewSet [of u m t]
    by (auto simp: viewset_defs)
  have table: "permitted (viewset_of res) u m (route_target r owner) =
      first_match precedence_table
        \<lparr>rq_user = u, rq_verb = m, rq_resource = res, rq_owner = owner\<rparr>"
  proof (cases res)
    case Review
    with assms show ?thesis
      by (cases r)
         (auto simp: first_match_table permitted_ReviewViewSet route_target_def
            SAFE_METHODS_def
            dest: role_implies_authenticated owner_implies_authenticated)
  next
    case Comment
    with assms show ?thesis
      by (cases r)
         (auto simp: first_match_table permitted_CommentViewSet permitted_ReviewViewSet
            route_target_def SAFE_METHODS_def
            dest: role_implies_authenticated owner_implies_authenticated)
  next
    case Title
    then show ?thesis by (simp add: first_match_table adm SAFE_METHODS_def)
  next
    case Category
    then show ?thesis by (simp add: first_match_table adm SAFE_METHODS_def)
  next
    case Genre
    then show ?thesis by (simp add: first_match_table adm SAFE_METHODS_def)
  next
    case User
    then show ?thesis by (simp add: first_match_table adm SAFE_METHODS_def)
  next
    case PersonalInfo
    with assms show ?thesis by simp
  qed
  have safe: "permitted (viewset_of res) u GET (route_target r owner)"
    using assms(3)
    by (cases res; cases r)
       (simp_all add: adm permitted_CommentViewSet permitted_ReviewViewSet route_target_def
          SAFE_METHODS_def)
  have own: "first_match precedence_table
       \<lparr>rq_user = u, rq_verb = GET, rq_resource = PersonalInfo, rq_owner = owner\<rparr> =
       (is_authenticated u \<and> is_owner u owner)"
    by (simp add: first_match_table SAFE_METHODS_def)
  show ?thesis
    using table safe own by (simp add: permitted_GetPersonalInfoViewSet)
qed

theorem access_decision_is_first_matching_rule_witness:
  "permitted (viewset_of Comment) (Some moderator) DELETE (route_target detail_route (Some 1))
   = first_match precedence_table
       \<lparr>rq_user = Some moderator, rq_verb = DELETE, rq_resource = Comment, rq_owner = Some 1\<rparr>
   \<and> first_match precedence_table
       \<lparr>rq_user = Some moderator, rq_verb = DELETE, rq_resource = Comment, rq_owner = Some 1\<rparr>
   \<and> permitted (viewset_of Comment) (Some moderator) GET (route_target detail_route (Some 1))
   \<and> \<not> permitted (viewset_of PersonalInfo) (Some moderator) GET (object (Some 1))"
proof -
  have "route_mapping detail_route DELETE \<noteq> None" by simp
  from access_decision_is_first_matching_rule
    [of DELETE detail_route Comment "Some moderator" "Some 1", OF _ this]
  show ?thesis
    by (simp add: first_match_table has_role_def is_owner_def SAFE_METHODS_def moderator_def)
qed

lemma moderator_destroys_comment:
  assumes "has_role Moderator u"
    and "filter (\<lambda>p. review_id p = rid \<and> review_title p = tid) (reviews s) = [p]"
    and "filter (\<lambda>c. comment_id c = pk) (filter (\<lambda>c. comment_review c = rid) (comments s)) = [c]"
  shows "CommentViewSet_dispatch has_permission has_object_permission validate s u tid rid
           (DestroyOp pk)
         = Inr (NoContent, s\<lparr>comments := filter (\<lambda>x. comment_id x \<noteq> pk) (comments s)\<rparr>)"
proof -
  have "p \<in> set (filter (\<lambda>p. review_id p = rid \<and> review_title p = tid) (reviews s))"
    using assms(2) by simp
  then have p: "review_id p = rid" by simp
  have "c \<in> set (filter (\<lambda>c. comment_id c = pk) (filter (\<lambda>c. comment_review c = rid) (comments s)))"
    using assms(3) by simp
  then have c: "comment_id c = pk" by simp
  have auth: "is_authenticated u"
    using assms(1) by (rule role_implies_authenticated)
  have found: "CommentViewSet_get_object has_object_permission s u DELETE tid rid pk = Inr c"
    using assms p
    by (simp add: CommentViewSet_get_object_def CommentViewSet_get_queryset_def
          get_object_or_404_one check_object_permissions_def viewset_defs)
  have allowed: "check_permissions has_permission CommentViewSet u DELETE"
    using auth by (simp add: check_permissions_def CommentViewSet_def)
  have served: "handler CommentViewSet detail_route DELETE = Some act_destroy"
    by (simp add: handler_CommentViewSet handler_ReviewViewSet)
  show ?thesis
    using allowed served found c by (simp add: CommentViewSet_dispatch_def)
qed

text \<open>
  C2: an update or a delete of a review or a comment (PATCH or DELETE on an item) is
  allowed exactly when the requester is an admin, or a moderator, or the author of the
  item. So a moderator may delete any comment, whoever wrote it: the delete of a comment
  that the path names goes through and takes the comment out of the store. And a moderator
  may not delete a title, a category or a genre.
\<close>

theorem review_comment_update_delete:
  assumes "vs \<in> {ReviewViewSet, CommentViewSet}" and "m \<in> {PATCH, DELETE}"
  shows "permitted vs u m (object (Some author)) =
           (has_role Admin u \<or> has_role Moderator u \<or> is_owner u (Some author))
   \<and> (has_role Moderator u \<longrightarrow>
        permitted CommentViewSet u DELETE (object (Some author))
        \<and> handler CommentViewSet detail_route DELETE = Some act_destroy
        \<and> \<not> permitted TitleViewSet u DELETE (object None)
        \<and> \<not> permitted CategoryViewSet u DELETE (object None)
        \<and> \<not> permitted GenreViewSet u DELETE (object None))
   \<and> (has_role Moderator u
        \<and> filter (\<lambda>p. review_id p = rid \<and> review_title p = tid) (reviews s) = [p]
        \<and> filter (\<lambda>c. comment_id c = pk) (filter (\<lambda>c. comment_review c = rid) (comments s))
            = [c] \<longrightarrow>
        CommentViewSet_dispatch has_permission has_object_permission validate s u tid rid
           (DestroyOp pk)
         = Inr (NoContent, s\<lparr>comments := filter (\<lambda>x. comment_id x \<noteq> pk) (comments s)\<rparr>))"
proof -
  have first: "permitted vs u m (object (Some author)) =
      (has_role Admin u \<or> has_role Moderator u \<or> is_owner u (Some author))"
    using assms
    by (auto simp: permitted_CommentViewSet permitted_ReviewViewSet SAFE_METHODS_def
          dest: role_implies_authenticated owner_implies_authenticated)
  have not_admin: "\<not> has_role Admin u" if "has_role Moderator u"
    using that by (cases u) (simp_all add: has_role_def)
  have second: "\<not> permitted w u DELETE (object None)"
    if "has_role Moderator u" and "w \<in> {TitleViewSet, CategoryViewSet, GenreViewSet}" for w
    using that not_admin permitted_admin_or_read_only [of w u DELETE "object None"]
    by (auto simp: viewset_defs SAFE_METHODS_def)
  have third: "permitted CommentViewSet u DELETE (object (Some author))"
    if "has_role Moderator u"
    using that
    by (auto simp: permitted_CommentViewSet permitted_ReviewViewSet
          dest: role_implies_authenticated)
  show ?thesis
    using first second third moderator_destroys_comment [of u rid tid s p pk c validate]
    by (simp add: handler_CommentViewSet handler_ReviewViewSet)
qed

theorem review_comment_update_delete_witness:
  "permitted CommentViewSet (Some moderator) DELETE (object (Some 1))
   \<and> \<not> permitted TitleViewSet (Some moderator) DELETE (object None)
   \<and> CommentViewSet_dispatch has_permission has_object_permission text_required two_titles
        (Some moderator) 2 7 (DestroyOp 3)
      = Inr (NoContent, two_titles\<lparr>comments := []\<rparr>)"
proof -
  have role: "has_role Moderator (Some moderator)"
    by (simp add: has_role_def moderator_def)
  have review: "filter (\<lambda>p. review_id p = 7 \<and> review_title p = 2) (reviews two_titles)
      = [\<lparr>review_id = 7, review_title = 2, review_author = 1, review_rating = 8\<rparr>]"
    by (simp add: two_titles_def)
  have comment: "filter (\<lambda>c. comment_id c = 3)
        (filter (\<lambda>c. comment_review c = 7) (comments two_titles))
      = [\<lparr>comment_id = 3, comment_review = 7, comment_author = 1\<rparr>]"
    by (simp add: two_titles_def)
  have left: "filter (\<lambda>x. comment_id x \<noteq> 3) (comments two_titles) = []"
    by (simp add: two_titles_def)
  from review_comment_update_delete
    [of CommentViewSet DELETE "Some moderator" 1 7 2 two_titles _ 3 _ text_required]
    role review comment left
  show ?thesis by simp
qed

section \<open>Author and parent of a new review or comment\<close>

lemma saved_review_fields:
  "serializer_save vd [''author'' \<mapsto> a, ''title'' \<mapsto> t] ''author'' = Some a"
  "serializer_save vd [''author'' \<mapsto> a, ''title'' \<mapsto> t] ''title'' = Some t"
  "serializer_save vd [''author'' \<mapsto> a, ''title'' \<mapsto> t] ''rating'' = vd ''rating''"
  by (simp_all add: serializer_save_def map_add_def)

lemma saved_comment_fields:
  "serializer_save vd [''author'' \<mapsto> a, ''review'' \<mapsto> r] ''author'' = Some a"
  "serializer_save vd [''author'' \<mapsto> a, ''review'' \<mapsto> r] ''review'' = Some r"
  by (simp_all add: serializer_save_def map_add_def)

lemma review_create_stamped:
  assumes "ReviewViewSet_perform_create s tid (Some w) vd = Inr (r, s')"
  shows "review_author r = user_id w \<and> review_title r = tid
         \<and> (\<exists>t \<in> set (titles s). title_id t = tid) \<and> reviews s' = reviews s @ [r]"
proof -
  from assms obtain t where t: "get_object_or_404 (\<lambda>t. title_id t = tid) (titles s) = Inr t"
    by (auto simp: ReviewViewSet_perform_create_def split: sum.splits)
  then have found: "t \<in> set (titles s) \<and> title_id t = tid"
    by (rule get_object_or_404_Inr)
  from assms t have
    "Review_objects_create s
       (serializer_save vd [''author'' \<mapsto> VUser (user_id w), ''title'' \<mapsto> VTitle (title_id t)])
     = Inr (r, s')"
    by (simp add: ReviewViewSet_perform_create_def request_user_def)
  then have "review_author r = user_id w \<and> review_title r = title_id t
      \<and> reviews s' = reviews s @ [r]"
    by (auto simp: Review_objects_create_def saved_review_fields Let_def
          split: option.splits val.splits)
  with found show ?thesis by auto
qed

lemma comment_create_stamped:
  assumes "CommentViewSet_perform_create s tid rid (Some w) vd = Inr (c, s')"
  shows "comment_author c = user_id w \<and> comment_review c = rid
         \<and> (\<exists>r \<in> set (reviews s). review_id r = rid \<and> review_title r = tid)
         \<and> comments s' = comments s @ [c]"
proof -
  from assms obtain r where
    r: "get_object_or_404 (\<lambda>r. review_id r = rid \<and> review_title r = tid) (reviews s) = Inr r"
    by (auto simp: CommentViewSet_perform_create_def split: sum.splits)
  then have found: "r \<in> set (reviews s) \<and> review_id r = rid \<and> review_title r = tid"
    by (rule get_object_or_404_Inr)
  from assms r have
    "Comment_objects_create s
       (serializer_save vd [''author'' \<mapsto> VUser (user_id w), ''review'' \<mapsto> VReview (review_id r)])
     = Inr (c, s')"
    by (simp add: CommentViewSet_perform_create_def request_user_def)
  then have "comment_author c = user_id w \<and> comment_review c = review_id r
      \<and> comments s' = comments s @ [c]"
    by (auto simp: Comment_objects_create_def saved_comment_fields Let_def
          split: option.splits val.splits)
  with found show ?thesis by auto
qed

lemma review_create_ignores_body:
  "ReviewViewSet_perform_create s tid u (vd(''author'' \<mapsto> x, ''title'' \<mapsto> y)) =
   ReviewViewSet_perform_create s tid u vd"
proof -
  have "serializer_save (vd(''author'' \<mapsto> x, ''title'' \<mapsto> y)) [''author'' \<mapsto> a, ''title'' \<mapsto> t]
      = serializer_save vd [''author'' \<mapsto> a, ''title'' \<mapsto> t]" for a t
    by (rule ext) (simp add: serializer_save_def map_add_def)
  then show ?thesis
    by (simp add: ReviewViewSet_perform_create_def cong: sum.case_cong)
qed

lemma comment_create_ignores_body:
  "CommentViewSet_perform_create s tid rid u (vd(''author'' \<mapsto> x, ''review'' \<mapsto> y)) =
   CommentViewSet_perform_create s tid rid u vd"
proof -
  have "serializer_save (vd(''author'' \<mapsto> x, ''review'' \<mapsto> y)) [''author'' \<mapsto> a, ''review'' \<mapsto> r]
      = serializer_save vd [''author'' \<mapsto> a, ''review'' \<mapsto> r]" for a r
    by (rule ext) (simp add: serializer_save_def map_add_def)
  then show ?thesis
    by (simp add: CommentViewSet_perform_create_def cong: sum.case_cong)
qed

lemma review_create_succeeds:
  assumes "filter (\<lambda>t. title_id t = tid) (titles s) = [t]" and "vd ''rating'' = Some (VInt k)"
  shows "\<exists>r s'. ReviewViewSet_perform_create s tid (Some w) vd = Inr (r, s')"
  using assms
  by (simp add: ReviewViewSet_perform_create_def get_object_or_404_one request_user_def
        Review_objects_create_def saved_review_fields Let_def)

lemma comment_create_succeeds:
  assumes "filter (\<lambda>r. review_id r = rid \<and> review_title r = tid) (reviews s) = [r]"
  shows "\<exists>c s'. CommentViewSet_perform_create s tid rid (Some w) vd = Inr (c, s')"
  using assms
  by (simp add: CommentViewSet_perform_create_def get_object_or_404_one request_user_def
        Comment_objects_create_def saved_comment_fields Let_def)

text \<open>
  C4: a review made by \<^verbatim>\<open>ReviewViewSet.perform_create\<close> has the requester as its author
  and the title of the path as its title, and a comment made by
  \<^verbatim>\<open>CommentViewSet.perform_create\<close> has the requester as its author and the review of the
  path, a review of the title of the path, as its review. An author or a parent in the
  validated body changes nothing: the call gives the same result with and without them.
  The create goes through whenever the path names one title (one review of the title) and,
  for a review, the body brings a rating.
\<close>

theorem create_stamps_author_and_parent:
  "(ReviewViewSet_perform_create s tid (Some w) vd = Inr (r, s') \<longrightarrow>
      review_author r = user_id w \<and> review_title r = tid
      \<and> (\<exists>t \<in> set (titles s). title_id t = tid) \<and> reviews s' = reviews s @ [r])
   \<and> (CommentViewSet_perform_create s tid rid (Some w) vd = Inr (c, s'') \<longrightarrow>
      comment_author c = user_id w \<and> comment_review c = rid
      \<and> (\<exists>p \<in> set (reviews s). review_id p = rid \<and> review_title p = tid)
      \<and> comments s'' = comments s @ [c])
   \<and> ReviewViewSet_perform_create s tid u (vd(''author'' \<mapsto> x, ''title'' \<mapsto> y)) =
       ReviewViewSet_perform_create s tid u vd
   \<and> CommentViewSet_perform_create s tid rid u (vd(''author'' \<mapsto> x, ''review'' \<mapsto> z)) =
       CommentViewSet_perform_create s tid rid u vd
   \<and> (filter (\<lambda>t. title_id t = tid) (titles s) = [t] \<and> vd ''rating'' = Some (VInt k) \<longrightarrow>
        (\<exists>r s'. ReviewViewSet_perform_create s tid (Some w) vd = Inr (r, s')))
   \<and> (filter (\<lambda>p. review_id p = rid \<and> review_title p = tid) (reviews s) = [p] \<longrightarrow>
        (\<exists>c s'. CommentViewSet_perform_create s tid rid (Some w) vd = Inr (c, s')))"
  using review_create_stamped [of s tid w vd r s']
    comment_create_stamped [of s tid rid w vd c s'']
    review_create_ignores_body [of s tid u vd x y]
    comment_create_ignores_body [of s tid rid u vd x z]
    review_create_succeeds [of tid s t vd k w]
    comment_create_succeeds [of rid tid s p w vd]
  by blast

theorem create_stamps_author_and_parent_witness:
  "ReviewViewSet_perform_create two_titles 2 (Some alice)
       [''rating'' \<mapsto> VInt 9, ''author'' \<mapsto> VUser 99, ''title'' \<mapsto> VTitle 1]
     = Inr (\<lparr>review_id = 8, review_title = 2, review_author = 1, review_rating = 9\<rparr>,
            two_titles\<lparr>reviews := reviews two_titles
               @ [\<lparr>review_id = 8, review_title = 2, review_author = 1, review_rating = 9\<rparr>]\<rparr>)
   \<and> review_author \<lparr>review_id = 8, review_title = 2, review_author = 1, review_rating = 9\<rparr>
       = user_id alice
   \<and> (\<exists>t \<in> set (titles two_titles). title_id t = 2)"
proof -
  have run: "ReviewViewSet_perform_create two_titles 2 (Some alice)
       [''rating'' \<mapsto> VInt 9, ''author'' \<mapsto> VUser 99, ''title'' \<mapsto> VTitle 1]
     = Inr (\<lparr>review_id = 8, review_title = 2, review_author = 1, review_rating = 9\<rparr>,
            two_titles\<lparr>reviews := reviews two_titles
               @ [\<lparr>review_id = 8, review_title = 2, review_author = 1, review_rating = 9\<rparr>]\<rparr>)"
    by (simp add: ReviewViewSet_perform_create_def get_object_or_404_def objects_get_def
          Review_objects_create_def serializer_save_def request_user_def next_id_def
          two_titles_def alice_def Let_def)
  from run create_stamps_author_and_parent
    [of two_titles 2 alice
        "[''rating'' \<mapsto> VInt 9, ''author'' \<mapsto> VUser 99, ''title'' \<mapsto> VTitle 1]"
        "\<lparr>review_id = 8, review_title = 2, review_author = 1, review_rating = 9\<rparr>"
        "two_titles\<lparr>reviews := reviews two_titles
           @ [\<lparr>review_id = 8, review_title = 2, review_author = 1, review_rating = 9\<rparr>]\<rparr>"]
  show ?thesis by simp
qed

section \<open>A review that is not of the title in the path\<close>

lemma comment_queryset_not_found:
  assumes "\<not> (\<exists>r \<in> set (reviews s). review_id r = rid \<and> review_title r = tid)"
  shows "CommentViewSet_get_queryset s tid rid = Inl Http404"
  using get_object_or_404_none [OF assms]
  by (simp add: CommentViewSet_get_queryset_def)

lemma comment_perform_create_not_found:
  assumes "\<not> (\<exists>r \<in> set (reviews s). review_id r = rid \<and> review_title r = tid)"
  shows "CommentViewSet_perform_create s tid rid u vd = Inl Http404"
  using get_object_or_404_none [OF assms]
  by (simp add: CommentViewSet_perform_create_def)

lemma comment_handler_exists:
  "handler CommentViewSet (op_route rq) (op_method rq) \<noteq> None"
  by (cases rq) (simp_all add: handler_CommentViewSet handler_ReviewViewSet)

text \<open>
  C5, as the claim states it: every read or create that names a review of another title
  is answered not-found, not by a validation error. On the store of two titles, with
  review 7 a review of title 2, two creates under \<^verbatim>\<open>/titles/1/reviews/7/comments/\<close> are
  answered otherwise: a logged-in user's, with a body the serializer refuses, by a
  validation error, since the body is validated before \<^verbatim>\<open>perform_create\<close> looks the
  review up; and an anonymous one by the permission check, which runs before the handler.
\<close>

theorem mismatched_review_counterexample:
  "CommentViewSet_dispatch has_permission has_object_permission text_required
     two_titles (Some alice) 1 7 (CreateOp Map.empty) = Inl ValidationError
   \<and> CommentViewSet_dispatch has_permission has_object_permission text_required
     two_titles None 1 7 (CreateOp [''text'' \<mapsto> VStr ''first'']) = Inl PermissionDenied"
  by (simp add: CommentViewSet_dispatch_def check_permissions_def viewset_defs
        SAFE_METHODS_def is_authenticated_def handler_defs text_required_def)

lemma review_get_object_not_found:
  assumes "\<not> (\<exists>r \<in> set (reviews s). review_id r = rid \<and> review_title r = tid)"
    and "distinct (map title_id (titles s))"
  shows "ReviewViewSet_get_object hop s u m tid rid = Inl Http404"
proof (cases "\<exists>t \<in> set (titles s). title_id t = tid")
  case False
  then have "get_object_or_404 (\<lambda>t. title_id t = tid) (titles s) = Inl Http404"
    by (rule get_object_or_404_none)
  then show ?thesis
    by (simp add: ReviewViewSet_get_object_def ReviewViewSet_get_queryset_def)
next
  case True
  then obtain t where t: "t \<in> set (titles s)" "title_id t = tid" by auto
  from filter_unique [OF assms(2) t(1)] t(2)
  have "filter (\<lambda>x. title_id x = tid) (titles s) = [t]" by simp
  then have title: "get_object_or_404 (\<lambda>x. title_id x = tid) (titles s) = Inr t"
    by (rule get_object_or_404_one)
  have "\<not> (\<exists>r \<in> set (filter (\<lambda>r. review_title r = title_id t) (reviews s)). review_id r = rid)"
    using assms(1) t(2) by auto
  then have "get_object_or_404 (\<lambda>r. review_id r = rid)
      (filter (\<lambda>r. review_title r = title_id t) (reviews s)) = Inl Http404"
    by (rule get_object_or_404_none)
  with title show ?thesis
    by (simp add: ReviewViewSet_get_object_def ReviewViewSet_get_queryset_def)
qed

text \<open>
  C5, amended: a request that names a title id and a review id, both integers the database
  can hold as keys (64 bits, signed), where the review id is not that of a review of the
  title, is answered not-found once it has passed the permission check on the request and,
  for a create, once its body has passed validation. This holds on the comment endpoints
  for list, retrieve, create and delete, whatever the permission classes and the serializer
  do elsewhere; the two hooks of the comment view, \<^verbatim>\<open>get_queryset\<close> and
  \<^verbatim>\<open>perform_create\<close>, raise not-found by themselves. It holds for the review itself as
  well: in a store whose title ids are distinct, the lookup that retrieve, update and
  delete of \<^verbatim>\<open>/titles/{title_id}/reviews/{id}/\<close> start with raises not-found. An id
  outside the range of the keys is left out: the lookup refuses it before it compares a
  row.
\<close>

theorem mismatched_review_is_not_found:
  assumes "\<not> (\<exists>r \<in> set (reviews s). review_id r = rid \<and> review_title r = tid)"
    and "in_key_range tid" and "in_key_range rid"
    and "check_permissions hp CommentViewSet u (op_method rq)"
    and "\<forall>body. rq = CreateOp body \<longrightarrow> validate body \<noteq> None"
  shows "CommentViewSet_dispatch hp hop validate s u tid rid rq = Inl Http404
   \<and> CommentViewSet_get_queryset s tid rid = Inl Http404
   \<and> CommentViewSet_perform_create s tid rid u vd = Inl Http404
   \<and> (distinct (map title_id (titles s)) \<longrightarrow>
        ReviewViewSet_get_object hop s u m tid rid = Inl Http404)"
proof -
  note q = comment_queryset_not_found [OF assms(1)]
  note c = comment_perform_create_not_found [OF assms(1)]
  note g = review_get_object_not_found [OF assms(1), of hop u m]
  obtain a where a: "handler CommentViewSet (op_route rq) (op_method rq) = Some a"
    using comment_handler_exists [of rq] by auto
  have "CommentViewSet_dispatch hp hop validate s u tid rid rq = Inl Http404"
  proof (cases rq)
    case ListOp
    with assms(4) a show ?thesis
      by (simp add: CommentViewSet_dispatch_def q)
  next
    case (CreateOp body)
    with assms(5) obtain validated where "validate body = Some validated" by auto
    with CreateOp assms(4) a show ?thesis
      by (simp add: CommentViewSet_dispatch_def c)
  next
    case (RetrieveOp pk)
    with assms(4) a show ?thesis
      by (simp add: CommentViewSet_dispatch_def CommentViewSet_get_object_def q)
  next
    case (DestroyOp pk)
    with assms(4) a show ?thesis
      by (simp add: CommentViewSet_dispatch_def CommentViewSet_get_object_def q)
  qed
  with q c g show ?thesis by simp
qed

theorem mismatched_review_is_not_found_witness:
  "CommentViewSet_dispatch has_permission has_object_permission text_required
     two_titles (Some alice) 1 7 (CreateOp [''text'' \<mapsto> VStr ''first'']) = Inl Http404
   \<and> CommentViewSet_get_queryset two_titles 1 7 = Inl Http404
   \<and> ReviewViewSet_get_object has_object_permission two_titles (Some alice) GET 1 7
       = Inl Http404"
proof -
  have range: "in_key_range 1" "in_key_range 7"
    by (simp_all add: in_key_range_def)
  have ids: "distinct (map title_id (titles two_titles))"
    by (simp add: two_titles_def)
  have mismatch:
    "\<not> (\<exists>r \<in> set (reviews two_titles). review_id r = 7 \<and> review_title r = 1)"
    by (simp add: two_titles_def)
  have allowed:
    "check_permissions has_permission CommentViewSet (Some alice)
       (op_method (CreateOp [''text'' \<mapsto> VStr ''first'']))"
    by (simp add: check_permissions_def viewset_defs is_authenticated_def)
  have valid: "\<forall>body. CreateOp [''text'' \<mapsto> VStr ''first''] = CreateOp body \<longrightarrow>
      text_required body \<noteq> None"
    by (auto simp: text_required_def)
  from mismatched_review_is_not_found
    [OF mismatch range allowed valid, of has_object_permission _ GET] ids
  show ?thesis by simp
qed

section \<open>The title list: rating and order\<close>

lemma set_TitleViewSet_list:
  "set (TitleViewSet_list flt s) =
     {(t, Avg (reviews__rating s t)) | t. t \<in> set (titles s) \<and> flt t}"
  by (auto simp: TitleViewSet_list_def TitleViewSet_queryset_def order_by_desc_id_def
        annotate_rating_def)

lemma reviews__rating_empty:
  "(reviews__rating s t = []) = (\<not> (\<exists>r \<in> set (reviews s). review_title r = title_id t))"
  by (simp add: reviews__rating_def filter_empty_conv)

lemma listed_rating:
  assumes "(t, rt) \<in> set (TitleViewSet_list flt s)"
  shows "rt = Avg (reviews__rating s t)"
  using assms by (auto simp: set_TitleViewSet_list)

lemma reviews__rating_append:
  "reviews__rating (s\<lparr>reviews := reviews s @ [r]\<rparr>) t =
     (if review_title r = title_id t then reviews__rating s t @ [review_rating r]
      else reviews__rating s t)"
  by (simp add: reviews__rating_def)

text \<open>
  C6: the rating of every title in the response of the title list is null when no review
  of the store is a review of that title, and is otherwise the sum of the ratings of its
  reviews divided by their number. Every title of the store that the filter lets through
  is in the response. The rating is worked out from the reviews of the store the request
  reads: on the store with one more review of the title, the list shows the mean with
  that review counted.
\<close>

theorem title_rating_is_mean_of_reviews:
  assumes "(t, rt) \<in> set (TitleViewSet_list flt s)"
  shows "(\<not> (\<exists>r \<in> set (reviews s). review_title r = title_id t) \<longrightarrow> rt = None)
   \<and> ((\<exists>r \<in> set (reviews s). review_title r = title_id t) \<longrightarrow>
        rt = Some (of_int (sum_list (map review_rating
                     (filter (\<lambda>r. review_title r = title_id t) (reviews s))))
                   / of_nat (length (filter (\<lambda>r. review_title r = title_id t) (reviews s)))))
   \<and> (\<forall>t' \<in> set (titles s). flt t' \<longrightarrow> (\<exists>rt'. (t', rt') \<in> set (TitleViewSet_list flt s)))
   \<and> (\<forall>r rt'. review_title r = title_id t
         \<and> (t, rt') \<in> set (TitleViewSet_list flt (s\<lparr>reviews := reviews s @ [r]\<rparr>)) \<longrightarrow>
        rt' = Some (of_int (sum_list (map review_rating
                      (filter (\<lambda>r. review_title r = title_id t) (reviews s))) + review_rating r)
                    / of_nat (length (filter (\<lambda>r. review_title r = title_id t) (reviews s)) + 1)))"
proof -
  have rt: "rt = Avg (reviews__rating s t)"
    using assms by (rule listed_rating)
  have none: "\<not> (\<exists>r \<in> set (reviews s). review_title r = title_id t) \<longrightarrow> rt = None"
    using rt reviews__rating_empty [of s t] by (simp add: Avg_def)
  have mean: "(\<exists>r \<in> set (reviews s). review_title r = title_id t) \<longrightarrow>
        rt = Some (of_int (sum_list (map review_rating
                     (filter (\<lambda>r. review_title r = title_id t) (reviews s))))
                   / of_nat (length (filter (\<lambda>r. review_title r = title_id t) (reviews s))))"
  proof
    assume "\<exists>r \<in> set (reviews s). review_title r = title_id t"
    then have "reviews__rating s t \<noteq> []"
      using reviews__rating_empty [of s t] by simp
    with rt show "rt = Some (of_int (sum_list (map review_rating
                     (filter (\<lambda>r. review_title r = title_id t) (reviews s))))
                   / of_nat (length (filter (\<lambda>r. review_title r = title_id t) (reviews s))))"
      by (simp add: Avg_def reviews__rating_def)
  qed
  have all: "\<forall>t' \<in> set (titles s). flt t' \<longrightarrow> (\<exists>rt'. (t', rt') \<in> set (TitleViewSet_list flt s))"
    by (auto simp: set_TitleViewSet_list)
  have later: "rt' = Some (of_int (sum_list (map review_rating
                      (filter (\<lambda>r. review_title r = title_id t) (reviews s))) + review_rating r)
                    / of_nat (length (filter (\<lambda>r. review_title r = title_id t) (reviews s)) + 1))"
    if "review_title r = title_id t"
      and "(t, rt') \<in> set (TitleViewSet_list flt (s\<lparr>reviews := reviews s @ [r]\<rparr>))" for r rt'
  proof -
    have "rt' = Avg (reviews__rating (s\<lparr>reviews := reviews s @ [r]\<rparr>) t)"
      using that(2) by (rule listed_rating)
    then have "rt' = Avg (reviews__rating s t @ [review_rating r])"
      using that(1) by (simp add: reviews__rating_append)
    then show ?thesis
      by (simp add: Avg_def reviews__rating_def)
  qed
  from none mean all later show ?thesis by blast
qed

theorem title_rating_is_mean_of_reviews_witness:
  "(\<lparr>title_id = 2, title_fields = Map.empty\<rparr>, Some 8) \<in> set (TitleViewSet_list (\<lambda>t. True) two_titles)
   \<and> (\<lparr>title_id = 1, title_fields = Map.empty\<rparr>, None) \<in> set (TitleViewSet_list (\<lambda>t. True) two_titles)
   \<and> (\<exists>r \<in> set (reviews two_titles). review_title r = 2)
   \<and> Some (8 :: rat) = Some (of_int (sum_list (map review_rating
                     (filter (\<lambda>r. review_title r = 2) (reviews two_titles))))
                   / of_nat (length (filter (\<lambda>r. review_title r = 2) (reviews two_titles))))"
proof -
  have listed:
    "(\<lparr>title_id = 2, title_fields = Map.empty\<rparr>, Some 8) \<in> set (TitleViewSet_list (\<lambda>t. True) two_titles)"
    by (simp add: set_TitleViewSet_list two_titles_def reviews__rating_def Avg_def)
  have other:
    "(\<lparr>title_id = 1, title_fields = Map.empty\<rparr>, None) \<in> set (TitleViewSet_list (\<lambda>t. True) two_titles)"
    by (simp add: set_TitleViewSet_list two_titles_def reviews__rating_def Avg_def)
  have some: "\<exists>r \<in> set (reviews two_titles). review_title r = 2"
    by (simp add: two_titles_def)
  from title_rating_is_mean_of_reviews [OF listed] some listed other
  show ?thesis by simp
qed

lemma queryset_sorted:
  "sorted (map (\<lambda>row. - title_id (fst row)) (TitleViewSet_list flt s))"
  unfolding TitleViewSet_list_def TitleViewSet_queryset_def order_by_desc_id_def
  by (rule sorted_filter) (rule sorted_sort_key)

lemma queryset_distinct:
  assumes "distinct (map title_id (titles s))"
  shows "distinct (map (\<lambda>row. - title_id (fst row)) (TitleViewSet_list flt s))"
proof -
  let ?g = "\<lambda>row :: title \<times> rat option. - title_id (fst row)"
  let ?rows = "annotate_rating s (titles s)"
  have "map ?g ?rows = map uminus (map title_id (titles s))"
    by (simp add: annotate_rating_def comp_def)
  moreover have "distinct (map uminus xs)" if "distinct xs" for xs :: "int list"
    using that by (simp add: distinct_map inj_on_def)
  ultimately have "distinct (map ?g ?rows)"
    using assms by (simp only:)
  then have "distinct ?rows \<and> inj_on ?g (set ?rows)"
    by (simp add: distinct_map)
  then have "distinct (map ?g (sort_key ?g ?rows))"
    by (simp add: distinct_map)
  then show ?thesis
    unfolding TitleViewSet_list_def TitleViewSet_queryset_def order_by_desc_id_def
    by (rule distinct_map_filter)
qed

text \<open>
  C10: in every store and under every filter, the titles of the title list come in
  descending order of id, and they are the titles of the store that the filter lets
  through. Where the ids of the store are distinct, as primary keys are, the order is
  strictly descending.
\<close>

theorem title_list_descending_id:
  "sorted_wrt (\<lambda>a b. title_id (fst a) \<ge> title_id (fst b)) (TitleViewSet_list flt s)
   \<and> set (map fst (TitleViewSet_list flt s)) = {t \<in> set (titles s). flt t}
   \<and> (distinct (map title_id (titles s)) \<longrightarrow>
        sorted_wrt (\<lambda>a b. title_id (fst a) > title_id (fst b)) (TitleViewSet_list flt s))"
proof -
  have desc: "sorted_wrt (\<lambda>a b. title_id (fst a) \<ge> title_id (fst b)) (TitleViewSet_list flt s)"
    using queryset_sorted [of flt s] by (simp add: sorted_map)
  have titles: "set (map fst (TitleViewSet_list flt s)) = {t \<in> set (titles s). flt t}"
    by (auto simp: set_TitleViewSet_list image_iff)
  have strict: "sorted_wrt (\<lambda>a b. title_id (fst a) > title_id (fst b)) (TitleViewSet_list flt s)"
    if "distinct (map title_id (titles s))"
  proof -
    have "sorted_wrt (<) (map (\<lambda>row. - title_id (fst row)) (TitleViewSet_list flt s))"
      using queryset_sorted [of flt s] queryset_distinct [OF that, of flt]
      by (simp add: strict_sorted_iff)
    then show ?thesis by (simp add: sorted_wrt_map)
  qed
  from desc titles strict show ?thesis by blast
qed

theorem title_list_descending_id_witness:
  "map (title_id \<circ> fst) (TitleViewSet_list (\<lambda>t. True) two_titles) = [2, 1]
   \<and> sorted_wrt (\<lambda>a b. title_id (fst a) \<ge> title_id (fst b))
       (TitleViewSet_list (\<lambda>t. True) two_titles)
   \<and> sorted_wrt (\<lambda>a b. title_id (fst a) > title_id (fst b))
       (TitleViewSet_list (\<lambda>t. True) two_titles)"
proof -
  have run: "map (title_id \<circ> fst) (TitleViewSet_list (\<lambda>t. True) two_titles) = [2, 1]"
    by (simp add: TitleViewSet_list_def TitleViewSet_queryset_def order_by_desc_id_def
          annotate_rating_def two_titles_def)
  have ids: "distinct (map title_id (titles two_titles))"
    by (simp add: two_titles_def)
  from title_list_descending_id [of "\<lambda>t. True" two_titles] run ids
  show ?thesis by simp
qed

section \<open>Token issuance\<close>

lemma objects_get_by_username:
  assumes "distinct (map username us)" and "u \<in> set us"
  shows "objects_get (\<lambda>x. username x = username u) us = Inr u"
  using filter_unique [OF assms] by (simp add: objects_get_def)

lemma objects_get_unknown:
  assumes "name \<notin> username ` set us"
  shows "objects_get (\<lambda>x. username x = name) us = Inl DoesNotExist"
proof -
  from assms have "filter (\<lambda>x. username x = name) us = []"
    by (auto simp: filter_empty_conv)
  then show ?thesis by (simp add: objects_get_def)
qed

lemma token_for_matching_code:
  assumes "distinct (map username (users s))" and "u \<in> set (users s)"
    and "confirmation_code u = Some c"
  shows "CustomJWTTokenView for_user s
           [''username'' \<mapsto> username u, ''confirmation_code'' \<mapsto> c]
         = Inr (HTTP_200_OK [(''Token'', for_user u)])"
proof -
  have "GetJWTTokenSerializer_is_valid s [''username'' \<mapsto> username u, ''confirmation_code'' \<mapsto> c]"
    using assms(2,3) by (auto simp: GetJWTTokenSerializer_is_valid_def list_ex_iff)
  then show ?thesis
    using objects_get_by_username [OF assms(1,2)]
    by (simp add: CustomJWTTokenView_def CustomJWTTokenView_post_def)
qed

lemma no_token_for_wrong_code:
  assumes "distinct (map username (users s))" and "u \<in> set (users s)"
    and "confirmation_code u \<noteq> Some c"
  shows "CustomJWTTokenView for_user s
           [''username'' \<mapsto> username u, ''confirmation_code'' \<mapsto> c]
         = Inl ValidationError"
proof -
  have "x = u" if "x \<in> set (users s)" and "username x = username u" for x
    using that assms(1,2) by (meson distinct_map inj_on_def)
  with assms(3) have
    "\<not> GetJWTTokenSerializer_is_valid s [''username'' \<mapsto> username u, ''confirmation_code'' \<mapsto> c]"
    by (auto simp: GetJWTTokenSerializer_is_valid_def list_ex_iff)
  then show ?thesis by (simp add: CustomJWTTokenView_def CustomJWTTokenView_post_def)
qed

lemma no_token_for_unknown_username:
  assumes "name \<notin> username ` set (users s)"
  shows "CustomJWTTokenView for_user s
           [''username'' \<mapsto> name, ''confirmation_code'' \<mapsto> c]
         = Inl ValidationError"
proof -
  from assms have
    "\<not> GetJWTTokenSerializer_is_valid s [''username'' \<mapsto> name, ''confirmation_code'' \<mapsto> c]"
    by (auto simp: GetJWTTokenSerializer_is_valid_def list_ex_iff)
  then show ?thesis by (simp add: CustomJWTTokenView_def CustomJWTTokenView_post_def)
qed

lemma unknown_username_never_gets_token:
  assumes "name \<notin> username ` set (users s)"
  shows "\<exists>e. CustomJWTTokenView_post is_valid for_user s
           [''username'' \<mapsto> name, ''confirmation_code'' \<mapsto> c] = Inl e"
  using objects_get_unknown [OF assms]
  by (simp add: CustomJWTTokenView_def CustomJWTTokenView_post_def)

text \<open>
  C7: in a store whose usernames are distinct, token issuance with the username of a user
  and the code that user holds answers 200 with the token signed for that user; with the
  username of a user and another code it fails with a validation error and no token; with
  a username no user has it fails with the same validation error and no token, so the two
  failures cannot be told apart. The view by itself, whatever its serializer accepts, never
  answers with a token for a username no user has.
\<close>

theorem token_issuance:
  assumes "distinct (map username (users s))"
  shows "(\<forall>u \<in> set (users s). \<forall>c. confirmation_code u = Some c \<longrightarrow>
            CustomJWTTokenView for_user s
              [''username'' \<mapsto> username u, ''confirmation_code'' \<mapsto> c]
            = Inr (HTTP_200_OK [(''Token'', for_user u)]))
   \<and> (\<forall>u \<in> set (users s). \<forall>c. confirmation_code u \<noteq> Some c \<longrightarrow>
            CustomJWTTokenView for_user s
              [''username'' \<mapsto> username u, ''confirmation_code'' \<mapsto> c]
            = Inl ValidationError)
   \<and> (\<forall>name c. name \<notin> username ` set (users s) \<longrightarrow>
            CustomJWTTokenView for_user s
              [''username'' \<mapsto> name, ''confirmation_code'' \<mapsto> c]
            = Inl ValidationError)
   \<and> (\<forall>is_valid name c. name \<notin> username ` set (users s) \<longrightarrow>
            (\<exists>e. CustomJWTTokenView_post is_valid for_user s
              [''username'' \<mapsto> name, ''confirmation_code'' \<mapsto> c] = Inl e))"
  using token_for_matching_code [OF assms] no_token_for_wrong_code [OF assms]
    no_token_for_unknown_username [of _ s] unknown_username_never_gets_token [of _ s]
  by blast

theorem token_issuance_witness:
  "CustomJWTTokenView (\<lambda>u. ''signed:'' @ username u)
     two_titles [''username'' \<mapsto> ''alice'', ''confirmation_code'' \<mapsto> ''c0de'']
     = Inr (HTTP_200_OK [(''Token'', ''signed:alice'')])
   \<and> CustomJWTTokenView (\<lambda>u. ''signed:'' @ username u)
     two_titles [''username'' \<mapsto> ''alice'', ''confirmation_code'' \<mapsto> ''guess'']
     = Inl ValidationError
   \<and> CustomJWTTokenView (\<lambda>u. ''signed:'' @ username u)
     two_titles [''username'' \<mapsto> ''bob'', ''confirmation_code'' \<mapsto> ''c0de'']
     = Inl ValidationError"
proof -
  have names: "distinct (map username (users two_titles))"
    by (simp add: two_titles_def alice_def moderator_def)
  have member: "alice \<in> set (users two_titles)"
    by (simp add: two_titles_def)
  have unknown: "''bob'' \<notin> username ` set (users two_titles)"
    by (simp add: two_titles_def alice_def moderator_def)
  have code: "confirmation_code alice = Some ''c0de''"
    and wrong: "confirmation_code alice \<noteq> Some ''guess''"
    by (simp_all add: alice_def)
  note t = token_issuance [OF names, of "\<lambda>u. ''signed:'' @ username u"]
  from t member code have
    "CustomJWTTokenView (\<lambda>u. ''signed:'' @ username u)
       two_titles [''username'' \<mapsto> username alice, ''confirmation_code'' \<mapsto> ''c0de'']
     = Inr (HTTP_200_OK [(''Token'', ''signed:'' @ username alice)])"
    by blast
  moreover from t member wrong have
    "CustomJWTTokenView (\<lambda>u. ''signed:'' @ username u)
       two_titles [''username'' \<mapsto> username alice, ''confirmation_code'' \<mapsto> ''guess'']
     = Inl ValidationError"
    by blast
  moreover from t unknown have
    "CustomJWTTokenView (\<lambda>u. ''signed:'' @ username u)
       two_titles [''username'' \<mapsto> ''bob'', ''confirmation_code'' \<mapsto> ''c0de'']
     = Inl ValidationError"
    by blast
  ultimately show ?thesis by (simp add: alice_def)
qed

section \<open>Registering twice\<close>

lemma register_pending:
  assumes "distinct (map username (users s))" and "u \<in> set (users s)"
    and "username u = name" and "email u = addr" and "confirmation_code u \<noteq> None"
  shows "\<exists>s'. RegisterNewUserAPIView gen s [''username'' \<mapsto> name, ''email'' \<mapsto> addr]
              = Inr (HTTP_200_OK [(''username'', name), (''email'', addr)], s')
          \<and> outbox s' = outbox s @
                [\<lparr>subject = ''Confirmation code'', message = ''Your code: '' @ gen s,
                  from_email = ''awesome@guy.com'', recipient_list = [addr]\<rparr>]
          \<and> map username (users s') = map username (users s)
          \<and> u\<lparr>confirmation_code := Some (gen s)\<rparr> \<in> set (users s')"
proof -
  have valid: "CreateUserSerializer_is_valid s [''username'' \<mapsto> name, ''email'' \<mapsto> addr]"
    using assms(2-5) by (auto simp: CreateUserSerializer_is_valid_def list_ex_iff)
  have "find (\<lambda>x. username x = username u) (users s) = Some u"
    using assms(1,2) by (rule find_unique)
  then have found: "find (\<lambda>x. username x = name) (users s) = Some u"
    using assms(3) by simp
  let ?upd = "\<lambda>x. if username x = name then x\<lparr>confirmation_code := Some (gen s)\<rparr> else x"
  have names: "map username (map ?upd (users s)) = map username (users s)"
    by (induction "users s") auto
  have "?upd u \<in> set (map ?upd (users s))"
    using assms(2) by simp
  then have member: "u\<lparr>confirmation_code := Some (gen s)\<rparr> \<in> set (map ?upd (users s))"
    using assms(3) by simp
  show ?thesis
    using valid found names member assms(3,4)
    by (simp add: RegisterNewUserAPIView_def RegisterNewUserAPIView_post_def
          CreateUserSerializer_save_def CreateUserSerializer_data_def code_text_def)
qed

lemma register_new:
  assumes "list_all (\<lambda>u. username u \<noteq> name \<and> email u \<noteq> addr) (users s)"
  shows "\<exists>s' u. RegisterNewUserAPIView gen s [''username'' \<mapsto> name, ''email'' \<mapsto> addr]
              = Inr (HTTP_200_OK [(''username'', name), (''email'', addr)], s')
          \<and> outbox s' = outbox s @
                [\<lparr>subject = ''Confirmation code'', message = ''Your code: '' @ gen s,
                  from_email = ''awesome@guy.com'', recipient_list = [addr]\<rparr>]
          \<and> users s' = users s @ [u]
          \<and> username u = name \<and> email u = addr \<and> confirmation_code u = Some (gen s)"
proof -
  have valid: "CreateUserSerializer_is_valid s [''username'' \<mapsto> name, ''email'' \<mapsto> addr]"
    using assms by (simp add: CreateUserSerializer_is_valid_def)
  have "\<not> (\<exists>x. x \<in> set (users s) \<and> username x = name)"
    using assms by (auto simp: list_all_iff)
  then have found: "find (\<lambda>x. username x = name) (users s) = None"
    by (simp add: find_None_iff)
  show ?thesis
    using valid found
    by (simp add: RegisterNewUserAPIView_def RegisterNewUserAPIView_post_def
          CreateUserSerializer_save_def CreateUserSerializer_data_def code_text_def Let_def)
qed

lemma register_first:
  assumes "distinct (map username (users s))"
    and "CreateUserSerializer_is_valid s [''username'' \<mapsto> name, ''email'' \<mapsto> addr]"
  shows "\<exists>s' u. RegisterNewUserAPIView gen s [''username'' \<mapsto> name, ''email'' \<mapsto> addr]
              = Inr (HTTP_200_OK [(''username'', name), (''email'', addr)], s')
          \<and> outbox s' = outbox s @
                [\<lparr>subject = ''Confirmation code'', message = ''Your code: '' @ gen s,
                  from_email = ''awesome@guy.com'', recipient_list = [addr]\<rparr>]
          \<and> distinct (map username (users s'))
          \<and> u \<in> set (users s')
          \<and> username u = name \<and> email u = addr \<and> confirmation_code u = Some (gen s)"
proof (cases "list_all (\<lambda>u. username u \<noteq> name \<and> email u \<noteq> addr) (users s)")
  case True
  from register_new [OF True, of gen] obtain s' u where
    r: "RegisterNewUserAPIView gen s [''username'' \<mapsto> name, ''email'' \<mapsto> addr]
          = Inr (HTTP_200_OK [(''username'', name), (''email'', addr)], s')"
    and o: "outbox s' = outbox s @
                [\<lparr>subject = ''Confirmation code'', message = ''Your code: '' @ gen s,
                  from_email = ''awesome@guy.com'', recipient_list = [addr]\<rparr>]"
    and us: "users s' = users s @ [u]"
    and u: "username u = name \<and> email u = addr \<and> confirmation_code u = Some (gen s)"
    by blast
  from True have "name \<notin> set (map username (users s))"
    by (auto simp: list_all_iff)
  with assms(1) us u have "distinct (map username (users s'))" by simp
  moreover from us have "u \<in> set (users s')" by simp
  ultimately show ?thesis using r o u by blast
next
  case False
  with assms(2) obtain u where
    u: "u \<in> set (users s)" "username u = name" "email u = addr" "confirmation_code u \<noteq> None"
    by (auto simp: CreateUserSerializer_is_valid_def list_ex_iff)
  from register_pending [OF assms(1) u, of gen] obtain s' where
    r: "RegisterNewUserAPIView gen s [''username'' \<mapsto> name, ''email'' \<mapsto> addr]
          = Inr (HTTP_200_OK [(''username'', name), (''email'', addr)], s')"
    and o: "outbox s' = outbox s @
                [\<lparr>subject = ''Confirmation code'', message = ''Your code: '' @ gen s,
                  from_email = ''awesome@guy.com'', recipient_list = [addr]\<rparr>]"
    and names: "map username (users s') = map username (users s)"
    and member: "u\<lparr>confirmation_code := Some (gen s)\<rparr> \<in> set (users s')"
    by blast
  from names assms(1) have "distinct (map username (users s'))" by simp
  moreover have "username (u\<lparr>confirmation_code := Some (gen s)\<rparr>) = name
      \<and> email (u\<lparr>confirmation_code := Some (gen s)\<rparr>) = addr
      \<and> confirmation_code (u\<lparr>confirmation_code := Some (gen s)\<rparr>) = Some (gen s)"
    using u by simp
  ultimately show ?thesis using r o member by blast
qed

text \<open>
  C8: in a store whose usernames are distinct, a registration that the serializer accepts
  (the username and the email are new, or are those of a pending record) answers 200 with
  the identity echoed and mails one code to the address; the same registration again, on
  the store the first one left, answers 200 as well, mails one more code, and adds no
  record. After each of the two the code just mailed, with the username, gets a token from
  token issuance.
\<close>

theorem reregistration_is_idempotent:
  assumes "distinct (map username (users s))"
    and "CreateUserSerializer_is_valid s [''username'' \<mapsto> name, ''email'' \<mapsto> addr]"
  shows "\<exists>s1 s2 u1 u2.
       RegisterNewUserAPIView gen s [''username'' \<mapsto> name, ''email'' \<mapsto> addr]
         = Inr (HTTP_200_OK [(''username'', name), (''email'', addr)], s1)
     \<and> RegisterNewUserAPIView gen s1 [''username'' \<mapsto> name, ''email'' \<mapsto> addr]
         = Inr (HTTP_200_OK [(''username'', name), (''email'', addr)], s2)
     \<and> outbox s1 = outbox s @
          [\<lparr>subject = ''Confirmation code'', message = ''Your code: '' @ gen s,
            from_email = ''awesome@guy.com'', recipient_list = [addr]\<rparr>]
     \<and> outbox s2 = outbox s1 @
          [\<lparr>subject = ''Confirmation code'', message = ''Your code: '' @ gen s1,
            from_email = ''awesome@guy.com'', recipient_list = [addr]\<rparr>]
     \<and> CustomJWTTokenView for_user s1 [''username'' \<mapsto> name, ''confirmation_code'' \<mapsto> gen s]
         = Inr (HTTP_200_OK [(''Token'', for_user u1)])
     \<and> CustomJWTTokenView for_user s2 [''username'' \<mapsto> name, ''confirmation_code'' \<mapsto> gen s1]
         = Inr (HTTP_200_OK [(''Token'', for_user u2)])
     \<and> username u1 = name \<and> email u1 = addr \<and> u1 \<in> set (users s1)
     \<and> u2 = u1\<lparr>confirmation_code := Some (gen s1)\<rparr> \<and> u2 \<in> set (users s2)
     \<and> map username (users s2) = map username (users s1)"
proof -
  from register_first [OF assms, of gen] obtain s1 u1 where
    r1: "RegisterNewUserAPIView gen s [''username'' \<mapsto> name, ''email'' \<mapsto> addr]
          = Inr (HTTP_200_OK [(''username'', name), (''email'', addr)], s1)"
    and o1: "outbox s1 = outbox s @
                [\<lparr>subject = ''Confirmation code'', message = ''Your code: '' @ gen s,
                  from_email = ''awesome@guy.com'', recipient_list = [addr]\<rparr>]"
    and d1: "distinct (map username (users s1))"
    and m1: "u1 \<in> set (users s1)"
    and n1: "username u1 = name" and e1: "email u1 = addr"
    and c1: "confirmation_code u1 = Some (gen s)"
    by blast
  from c1 have p1: "confirmation_code u1 \<noteq> None" by simp
  let ?u2 = "u1\<lparr>confirmation_code := Some (gen s1)\<rparr>"
  from register_pending [OF d1 m1 n1 e1 p1, of gen] obtain s2 where
    r2: "RegisterNewUserAPIView gen s1 [''username'' \<mapsto> name, ''email'' \<mapsto> addr]
          = Inr (HTTP_200_OK [(''username'', name), (''email'', addr)], s2)"
    and o2: "outbox s2 = outbox s1 @
                [\<lparr>subject = ''Confirmation code'', message = ''Your code: '' @ gen s1,
                  from_email = ''awesome@guy.com'', recipient_list = [addr]\<rparr>]"
    and names: "map username (users s2) = map username (users s1)"
    and m2: "?u2 \<in> set (users s2)"
    by blast
  from names d1 have d2: "distinct (map username (users s2))" by simp
  have t1: "CustomJWTTokenView for_user s1
        [''username'' \<mapsto> name, ''confirmation_code'' \<mapsto> gen s]
      = Inr (HTTP_200_OK [(''Token'', for_user u1)])"
    using token_for_matching_code [OF d1 m1 c1, of for_user] n1 by simp
  have "confirmation_code ?u2 = Some (gen s1)" by simp
  from token_for_matching_code [OF d2 m2 this, of for_user] n1
  have t2: "CustomJWTTokenView for_user s2
        [''username'' \<mapsto> name, ''confirmation_code'' \<mapsto> gen s1]
      = Inr (HTTP_200_OK [(''Token'', for_user ?u2)])"
    by simp
  from r1 r2 o1 o2 t1 t2 n1 e1 m1 m2 names show ?thesis by blast
qed

theorem reregistration_is_idempotent_witness:
  "\<exists>s1 s2 u1 u2.
       RegisterNewUserAPIView (\<lambda>s. ''k3y'') two_titles
           [''username'' \<mapsto> ''bob'', ''email'' \<mapsto> ''bob@example.org'']
         = Inr (HTTP_200_OK [(''username'', ''bob''), (''email'', ''bob@example.org'')], s1)
     \<and> RegisterNewUserAPIView (\<lambda>s. ''k3y'') s1
           [''username'' \<mapsto> ''bob'', ''email'' \<mapsto> ''bob@example.org'']
         = Inr (HTTP_200_OK [(''username'', ''bob''), (''email'', ''bob@example.org'')], s2)
     \<and> outbox s1 = outbox two_titles @
          [\<lparr>subject = ''Confirmation code'', message = ''Your code: '' @ ''k3y'',
            from_email = ''awesome@guy.com'', recipient_list = [''bob@example.org'']\<rparr>]
     \<and> outbox s2 = outbox s1 @
          [\<lparr>subject = ''Confirmation code'', message = ''Your code: '' @ ''k3y'',
            from_email = ''awesome@guy.com'', recipient_list = [''bob@example.org'']\<rparr>]
     \<and> CustomJWTTokenView (\<lambda>u. ''signed:'' @ username u) s1
           [''username'' \<mapsto> ''bob'', ''confirmation_code'' \<mapsto> ''k3y'']
         = Inr (HTTP_200_OK [(''Token'', ''signed:'' @ username u1)])
     \<and> CustomJWTTokenView (\<lambda>u. ''signed:'' @ username u) s2
           [''username'' \<mapsto> ''bob'', ''confirmation_code'' \<mapsto> ''k3y'']
         = Inr (HTTP_200_OK [(''Token'', ''signed:'' @ username u2)])
     \<and> username u1 = ''bob'' \<and> email u1 = ''bob@example.org'' \<and> u1 \<in> set (users s1)
     \<and> u2 = u1\<lparr>confirmation_code := Some ''k3y''\<rparr> \<and> u2 \<in> set (users s2)
     \<and> map username (users s2) = map username (users s1)"
proof -
  have names: "distinct (map username (users two_titles))"
    by (simp add: two_titles_def alice_def moderator_def)
  have valid: "CreateUserSerializer_is_valid two_titles
      [''username'' \<mapsto> ''bob'', ''email'' \<mapsto> ''bob@example.org'']"
    by (simp add: CreateUserSerializer_is_valid_def two_titles_def alice_def moderator_def)
  from reregistration_is_idempotent
    [OF names valid, of "\<lambda>s. ''k3y''" "\<lambda>u. ''signed:'' @ username u"]
  show ?thesis .
qed

end
